theory Spec2Isabelle
  imports Complex_Main "HOL-Library.Multiset"
begin

section \<open>Python values\<close>

text \<open>
  The verification results of the repository are plain Python dictionaries
  (\<^verbatim>\<open>Dict[str, Any]\<close>) whose entries hold JSON data decoded from the providers' replies.
  A dictionary is an association list in insertion order, read through \<open>map_of\<close>.
  Python floats are modelled as real numbers: rounding and overflow are not represented.
\<close>

datatype pyval =
    PNone
  | PBool bool
  | PInt int
  | PFloat real
  | PStr string
  | PList "pyval list"
  | PDict "(string \<times> pyval) list"

type_synonym pydict = "(string \<times> pyval) list"

text \<open>Exceptions of class \<^verbatim>\<open>Exception\<close>, with the value that caused them.\<close>

datatype pyexc =
    RequestException string
  | AttributeError pyval
  | TypeError pyval
  | KeyError string
  | Exception pyval

text \<open>Truth value testing (\<^verbatim>\<open>if x\<close>, \<^verbatim>\<open>not x\<close>, \<^verbatim>\<open>all\<close>).\<close>

fun truthy :: "pyval \<Rightarrow> bool" where
  "truthy PNone = False"
| "truthy (PBool b) = b"
| "truthy (PInt i) = (i \<noteq> 0)"
| "truthy (PFloat r) = (r \<noteq> 0)"
| "truthy (PStr s) = (s \<noteq> [])"
| "truthy (PList xs) = (xs \<noteq> [])"
| "truthy (PDict d) = (d \<noteq> [])"

text \<open>\<^verbatim>\<open>d.get(k, default)\<close>, \<^verbatim>\<open>k in d\<close> and \<^verbatim>\<open>d[k] = v\<close> on a dictionary.\<close>

definition dict_get :: "pydict \<Rightarrow> string \<Rightarrow> pyval \<Rightarrow> pyval" where
  "dict_get d k dflt = (case map_of d k of None \<Rightarrow> dflt | Some v \<Rightarrow> v)"

definition dict_has :: "pydict \<Rightarrow> string \<Rightarrow> bool" where
  "dict_has d k = (map_of d k \<noteq> None)"

fun dict_set :: "string \<Rightarrow> pyval \<Rightarrow> pydict \<Rightarrow> pydict" where
  "dict_set k v [] = [(k, v)]"
| "dict_set k v (p # d) = (if fst p = k then (k, v) # d else p # dict_set k v d)"

text \<open>
  \<^verbatim>\<open>0.0 + x\<close>: the float that adding \<open>x\<close> to a float uses, or \<open>None\<close> where the
  addition raises \<^verbatim>\<open>TypeError\<close>.
\<close>

fun to_float :: "pyval \<Rightarrow> real option" where
  "to_float (PBool b) = Some (if b then 1 else 0)"
| "to_float (PInt i) = Some (real_of_int i)"
| "to_float (PFloat r) = Some r"
| "to_float v = None"

text \<open>\<^verbatim>\<open>s in t\<close> on two strings.\<close>

fun starts_with :: "string \<Rightarrow> string \<Rightarrow> bool" where
  "starts_with [] t = True"
| "starts_with (c # s) [] = False"
| "starts_with (c # s) (c' # t) = (c = c' \<and> starts_with s t)"

fun str_contains :: "string \<Rightarrow> string \<Rightarrow> bool" where
  "str_contains s [] = (s = [])"
| "str_contains s (c # t) = (starts_with s (c # t) \<or> str_contains s t)"

text \<open>An optional string: the test \<^verbatim>\<open>if s\<close>, its text once the test has passed, and \<^verbatim>\<open>a or b\<close>.\<close>

definition given :: "string option \<Rightarrow> bool" where
  "given k = (case k of None \<Rightarrow> False | Some s \<Rightarrow> s \<noteq> [])"

definition text_of :: "string option \<Rightarrow> string" where
  "text_of k = (case k of None \<Rightarrow> [] | Some s \<Rightarrow> s)"

definition py_or :: "string option \<Rightarrow> string option \<Rightarrow> string option" where
  "py_or a b = (if given a then a else b)"

text \<open>
  \<^verbatim>\<open>sum(1 for factor in score_factors if factor) / len(score_factors)\<close>, the score of
  the MailboxLayer and NeutrinoAPI adapters (their lists are never empty).
\<close>

definition passed_fraction :: "pyval list \<Rightarrow> real" where
  "passed_fraction score_factors =
    real (length (filter truthy score_factors)) / real (length score_factors)"

section \<open>The environment of a run\<close>

text \<open>
  An HTTP request as the adapters build it for \<^verbatim>\<open>requests.get\<close> and
  \<^verbatim>\<open>requests.post\<close>.
\<close>

record request =
  verb :: string
  url :: string
  params :: pydict
  headers :: "(string \<times> string) list"
  json :: pyval

text \<open>One row of the table \<^verbatim>\<open>email_verification\<close> (its id and default date left out).\<close>

record verification_row =
  row_email :: pyval
  row_is_valid :: pyval
  row_score :: pyval
  row_provider :: pyval
  row_details :: pyval

text \<open>
  What the code does not decide:
  \<^item> \<open>getenv\<close>: the process environment read by the adapters' constructors;
  \<^item> \<open>http\<close>: the outcome of sending a request, checking its status and decoding its
    body (\<^verbatim>\<open>requests.get(...)\<close>, \<^verbatim>\<open>raise_for_status()\<close>, \<^verbatim>\<open>response.json()\<close>): the
    decoded JSON value, or the exception one of the three raised (a provider is taken to
    answer the same request in the same way throughout a run);
  \<^item> \<open>str_exc\<close>: the text \<^verbatim>\<open>str(e)\<close> of an exception;
  \<^item> \<open>commit_fails\<close>: whether the \<open>k\<close>-th insertion into the table raises;
  \<^item> \<open>arrival\<close>: the order in which the futures of the \<open>k\<close>-th aggregate call complete;
  \<^item> \<open>utcnow\<close>: the clock reading of the \<open>k\<close>-th aggregate call, in ISO format.
\<close>

record env =
  getenv :: "string \<Rightarrow> string option"
  http :: "request \<Rightarrow> pyexc + pyval"
  str_exc :: "pyexc \<Rightarrow> string"
  commit_fails :: "nat \<Rightarrow> verification_row \<Rightarrow> bool"
  arrival :: "nat \<Rightarrow> nat list"
  utcnow :: "nat \<Rightarrow> string"

section \<open>Provider adapters\<close>

text \<open>
  Each \<^verbatim>\<open>verify_email\<close> returns the result dictionary together with the list of the
  requests it sent.
\<close>

subsection \<open>services/zerobounce\_service.py\<close>

definition ZeroBounceService :: "env \<Rightarrow> string option \<Rightarrow> string option" where
  "ZeroBounceService E api_key = py_or api_key (getenv E ''ZEROBOUNCE_API_KEY'')"

definition zerobounce_verify_email ::
  "env \<Rightarrow> string option \<Rightarrow> string \<Rightarrow> pydict \<times> request list" where
  "zerobounce_verify_email E api_key email =
    (if \<not> given api_key then
       ([(''email'', PStr email), (''is_valid'', PNone),
         (''error'', PStr ''API key not provided''), (''provider'', PStr ''zerobounce'')], [])
     else
       let endpoint = ''https://api.zerobounce.net/v2'' @ ''/validate'';
           req = \<lparr>verb = ''GET'', url = endpoint,
                  params = [(''api_key'', PStr (text_of api_key)), (''email'', PStr email),
                            (''ip_address'', PStr '''')],
                  headers = [], json = PNone\<rparr>;
           failed = (\<lambda>e. [(''email'', PStr email), (''is_valid'', PNone),
                            (''error'', PStr (str_exc E e)), (''provider'', PStr ''zerobounce'')])
       in (case http E req of
             Inl e \<Rightarrow> failed e
           | Inr data \<Rightarrow>
               (case data of
                  PDict d \<Rightarrow>
                    let status = dict_get d ''status'' PNone;
                        is_valid = (status = PStr ''valid'')
                    in [(''email'', PStr email), (''is_valid'', PBool is_valid),
                        (''score'', PFloat (if is_valid then 1 else 0)),
                        (''provider'', PStr ''zerobounce''), (''details'', data)]
                | _ \<Rightarrow> failed (AttributeError data)),
           [req]))"

subsection \<open>services/mailboxlayer\_service.py\<close>

definition MailboxLayerService :: "env \<Rightarrow> string option \<Rightarrow> string option" where
  "MailboxLayerService E api_key = py_or api_key (getenv E ''MAILBOXLAYER_API_KEY'')"

text \<open>
  \<^verbatim>\<open>if "error" in data: raise Exception(data["error"]["info"])\<close>: the exception this
  statement raises, if any, on every JSON value.
\<close>

definition mailboxlayer_error :: "pyval \<Rightarrow> pyexc option" where
  "mailboxlayer_error data =
    (case data of
       PDict d \<Rightarrow>
         (case map_of d ''error'' of
            None \<Rightarrow> None
          | Some err \<Rightarrow>
              Some (case err of
                      PDict e \<Rightarrow> (case map_of e ''info'' of
                                     Some info \<Rightarrow> Exception info
                                   | None \<Rightarrow> KeyError ''info'')
                    | _ \<Rightarrow> TypeError err))
     | PList xs \<Rightarrow> if PStr ''error'' \<in> set xs then Some (TypeError data) else None
     | PStr s \<Rightarrow> if str_contains ''error'' s then Some (TypeError data) else None
     | _ \<Rightarrow> Some (TypeError data))"

definition mailboxlayer_verify_email ::
  "env \<Rightarrow> string option \<Rightarrow> string \<Rightarrow> pydict \<times> request list" where
  "mailboxlayer_verify_email E api_key email =
    (if \<not> given api_key then
       ([(''email'', PStr email), (''is_valid'', PNone),
         (''error'', PStr ''API key not provided''), (''provider'', PStr ''mailboxlayer'')], [])
     else
       let endpoint = ''https://api.mailboxlayer.com'' @ ''/check'';
           req = \<lparr>verb = ''GET'', url = endpoint,
                  params = [(''access_key'', PStr (text_of api_key)), (''email'', PStr email),
                            (''smtp'', PInt 1), (''format'', PInt 1)],
                  headers = [], json = PNone\<rparr>;
           failed = (\<lambda>e. [(''email'', PStr email), (''is_valid'', PNone),
                            (''error'', PStr (str_exc E e)), (''provider'', PStr ''mailboxlayer'')])
       in (case http E req of
             Inl e \<Rightarrow> failed e
           | Inr data \<Rightarrow>
               (case mailboxlayer_error data of
                  Some e \<Rightarrow> failed e
                | None \<Rightarrow>
                    (case data of
                       PDict d \<Rightarrow>
                         let is_valid = list_all truthy
                               [dict_get d ''format_valid'' (PBool False),
                                dict_get d ''mx_found'' (PBool False),
                                dict_get d ''smtp_check'' (PBool False)];
                             score_factors =
                               [dict_get d ''format_valid'' (PBool False),
                                dict_get d ''mx_found'' (PBool False),
                                dict_get d ''smtp_check'' (PBool False),
                                PBool (\<not> truthy (dict_get d ''disposable'' (PBool True))),
                                (if dict_has d ''free''
                                 then PBool (\<not> truthy (dict_get d ''free'' (PBool True)))
                                 else PBool True)];
                             score = passed_fraction score_factors
                         in [(''email'', PStr email), (''is_valid'', PBool is_valid),
                             (''score'', PFloat score),
                             (''provider'', PStr ''mailboxlayer''), (''details'', data)]
                     | _ \<Rightarrow> failed (AttributeError data))),
           [req]))"

subsection \<open>services/neutrinoapi\_service.py\<close>

definition NeutrinoAPIService ::
  "env \<Rightarrow> string option \<Rightarrow> string option \<Rightarrow> string option \<times> string option" where
  "NeutrinoAPIService E user_id api_key =
    (py_or user_id (getenv E ''NEUTRINOAPI_USER_ID''),
     py_or api_key (getenv E ''NEUTRINOAPI_API_KEY''))"

definition neutrinoapi_verify_email ::
  "env \<Rightarrow> string option \<times> string option \<Rightarrow> string \<Rightarrow> pydict \<times> request list" where
  "neutrinoapi_verify_email E self email =
    (let user_id = fst self; api_key = snd self in
     if \<not> (given api_key \<and> given user_id) then
       ([(''email'', PStr email), (''is_valid'', PNone),
         (''error'', PStr ''API credentials not provided''),
         (''provider'', PStr ''neutrinoapi'')], [])
     else
       let endpoint = ''https://neutrinoapi.net'' @ ''/email-validate'';
           req = \<lparr>verb = ''POST'', url = endpoint, params = [],
                  headers = [(''User-ID'', text_of user_id), (''API-Key'', text_of api_key),
                             (''Content-Type'', ''application/json'')],
                  json = PDict [(''email'', PStr email)]\<rparr>;
           failed = (\<lambda>e. [(''email'', PStr email), (''is_valid'', PNone),
                            (''error'', PStr (str_exc E e)), (''provider'', PStr ''neutrinoapi'')])
       in (case http E req of
             Inl e \<Rightarrow> failed e
           | Inr result \<Rightarrow>
               (case result of
                  PDict d \<Rightarrow>
                    let is_valid = dict_get d ''valid'' (PBool False);
                        score_factors =
                          [dict_get d ''valid'' (PBool False),
                           dict_get d ''syntax.valid'' (PBool False),
                           PBool (\<not> truthy (dict_get d ''disposable'' (PBool True))),
                           dict_get d ''domain.exists'' (PBool False),
                           dict_get d ''domain.has-mx'' (PBool False),
                           (if dict_has d ''is-freemail''
                            then PBool (\<not> truthy (dict_get d ''is-freemail'' (PBool True)))
                            else PBool True)];
                        score = passed_fraction score_factors
                    in [(''email'', PStr email), (''is_valid'', is_valid),
                        (''score'', PFloat score),
                        (''provider'', PStr ''neutrinoapi''), (''details'', result)]
                | _ \<Rightarrow> failed (AttributeError result)),
           [req]))"

subsection \<open>services/spokeo\_service.py\<close>

definition SpokeoService :: "env \<Rightarrow> string option \<Rightarrow> string option" where
  "SpokeoService E api_key = py_or api_key (getenv E ''SPOKEO_API_KEY'')"

definition spokeo_verify_email ::
  "env \<Rightarrow> string option \<Rightarrow> string \<Rightarrow> pydict \<times> request list" where
  "spokeo_verify_email E api_key email =
    (if \<not> given api_key then
       ([(''email'', PStr email), (''is_valid'', PNone),
         (''error'', PStr ''API key not provided''), (''provider'', PStr ''spokeo'')], [])
     else
       let endpoint = ''https://www.spokeo.com/api'' @ ''/search/email'';
           req = \<lparr>verb = ''GET'', url = endpoint, params = [(''email'', PStr email)],
                  headers = [(''Authorization'', ''Bearer '' @ text_of api_key)], json = PNone\<rparr>;
           failed = (\<lambda>e. [(''email'', PStr email), (''is_valid'', PNone),
                            (''error'', PStr (str_exc E e)), (''provider'', PStr ''spokeo'')])
       in (case http E req of
             Inl e \<Rightarrow> failed e
           | Inr data \<Rightarrow>
               (let is_valid = (case data of
                                  PDict d \<Rightarrow> dict_get d ''found'' (PBool False)
                                | _ \<Rightarrow> PBool False)
                in [(''email'', PStr email), (''is_valid'', is_valid),
                    (''score'', PFloat (if truthy is_valid then 1 else 0)),
                    (''provider'', PStr ''spokeo''),
                    (''details'', (case data of PDict d \<Rightarrow> data | _ \<Rightarrow> PDict []))]),
           [req]))"

subsection \<open>services/hunter\_service.py\<close>

definition HunterService :: "env \<Rightarrow> string option \<Rightarrow> string option" where
  "HunterService E api_key = py_or api_key (getenv E ''HUNTER_API_KEY'')"

definition hunter_verify_email ::
  "env \<Rightarrow> string option \<Rightarrow> string \<Rightarrow> pydict \<times> request list" where
  "hunter_verify_email E api_key email =
    (if \<not> given api_key then
       ([(''email'', PStr email), (''is_valid'', PNone),
         (''error'', PStr ''API key not provided''), (''provider'', PStr ''hunter'')], [])
     else
       let endpoint = ''https://api.hunter.io/v2'' @ ''/email-verifier'';
           req = \<lparr>verb = ''GET'', url = endpoint,
                  params = [(''email'', PStr email), (''api_key'', PStr (text_of api_key))],
                  headers = [], json = PNone\<rparr>;
           failed = (\<lambda>e. [(''email'', PStr email), (''is_valid'', PNone),
                            (''error'', PStr (str_exc E e)), (''provider'', PStr ''hunter'')])
       in (case http E req of
             Inl e \<Rightarrow> failed e
           | Inr body \<Rightarrow>
               (case body of
                  PDict b \<Rightarrow>
                    (let data = dict_get b ''data'' (PDict []) in
                     case data of
                       PDict d \<Rightarrow>
                         let status = dict_get d ''status'' PNone;
                             is_valid = (status \<in> set [PStr ''valid'', PStr ''webmail'']);
                             hunter_score = dict_get d ''score'' (PInt 0)
                         in [(''email'', PStr email), (''is_valid'', PBool is_valid),
                             (''score'', hunter_score),
                             (''provider'', PStr ''hunter''), (''details'', data)]
                     | _ \<Rightarrow> failed (AttributeError data))
                | _ \<Rightarrow> failed (AttributeError body)),
           [req]))"

subsection \<open>The adapters' \<^verbatim>\<open>bulk_verify\<close>\<close>

definition zerobounce_bulk_verify ::
  "env \<Rightarrow> string option \<Rightarrow> string list \<Rightarrow> pyval \<times> request list" where
  "zerobounce_bulk_verify E api_key emails =
    (if \<not> given api_key then (PDict [(''error'', PStr ''API key not provided'')], [])
     else
       let endpoint = ''https://api.zerobounce.net/v2'' @ ''/bulkvalidation'';
           data = PDict [(''api_key'', PStr (text_of api_key)),
                         (''email_batch'', PList (map PStr emails))];
           req = \<lparr>verb = ''POST'', url = endpoint, params = [], headers = [], json = data\<rparr>
       in (case http E req of
             Inl e \<Rightarrow> PDict [(''error'', PStr (str_exc E e))]
           | Inr reply \<Rightarrow> reply,
           [req]))"

definition hunter_bulk_verify ::
  "env \<Rightarrow> string option \<Rightarrow> string list \<Rightarrow> pyval \<times> request list" where
  "hunter_bulk_verify E api_key emails =
    (if \<not> given api_key then (PDict [(''error'', PStr ''API key not provided'')], [])
     else
       let endpoint = ''https://api.hunter.io/v2'' @ ''/bulks/verification'';
           req = \<lparr>verb = ''POST'', url = endpoint, params = [],
                  headers = [(''Authorization'', ''Bearer '' @ text_of api_key)], json = PNone\<rparr>
       in (case http E req of
             Inl e \<Rightarrow> PDict [(''error'', PStr (str_exc E e))]
           | Inr reply \<Rightarrow> reply,
           [req]))"

text \<open>
  The other three adapters have no bulk endpoint: they call their own
  \<^verbatim>\<open>verify_email\<close> on every address in turn.
\<close>

definition one_by_one ::
  "(string \<Rightarrow> pydict \<times> request list) \<Rightarrow> string list \<Rightarrow> pyval \<times> request list" where
  "one_by_one verify emails =
    (PDict [(''results'', PList (map (\<lambda>email. PDict (fst (verify email))) emails))],
     concat (map (\<lambda>email. snd (verify email)) emails))"

definition mailboxlayer_bulk_verify ::
  "env \<Rightarrow> string option \<Rightarrow> string list \<Rightarrow> pyval \<times> request list" where
  "mailboxlayer_bulk_verify E api_key emails =
    (if \<not> given api_key then (PDict [(''error'', PStr ''API key not provided'')], [])
     else one_by_one (mailboxlayer_verify_email E api_key) emails)"

definition neutrinoapi_bulk_verify ::
  "env \<Rightarrow> string option \<times> string option \<Rightarrow> string list \<Rightarrow> pyval \<times> request list" where
  "neutrinoapi_bulk_verify E self emails =
    (if \<not> (given (snd self) \<and> given (fst self))
     then (PDict [(''error'', PStr ''API credentials not provided'')], [])
     else one_by_one (neutrinoapi_verify_email E self) emails)"

definition spokeo_bulk_verify ::
  "env \<Rightarrow> string option \<Rightarrow> string list \<Rightarrow> pyval \<times> request list" where
  "spokeo_bulk_verify E api_key emails =
    (if \<not> given api_key then (PDict [(''error'', PStr ''API key not provided'')], [])
     else one_by_one (spokeo_verify_email E api_key) emails)"

section \<open>email\_verification\_manager.py\<close>

text \<open>
  What the manager uses of a service object: its \<^verbatim>\<open>api_key\<close> attribute, its
  \<^verbatim>\<open>verify_email\<close> (which returns a dictionary or raises) and its \<^verbatim>\<open>bulk_verify\<close>,
  if it has one.
\<close>

record service =
  svc_api_key :: "string option"
  svc_verify_email :: "string \<Rightarrow> pyexc + pydict"
  svc_bulk_verify :: "(string list \<Rightarrow> pyexc + pyval) option"

text \<open>The registry \<^verbatim>\<open>self.services\<close> that \<^verbatim>\<open>__init__\<close> builds, in its order.\<close>

definition EmailVerificationManager :: "env \<Rightarrow> (string \<times> service) list" where
  "EmailVerificationManager E =
    (let zerobounce = ZeroBounceService E None;
         mailboxlayer = MailboxLayerService E None;
         neutrinoapi = NeutrinoAPIService E None None;
         spokeo = SpokeoService E None;
         hunter = HunterService E None
     in [(''zerobounce'',
            \<lparr>svc_api_key = zerobounce,
             svc_verify_email = (\<lambda>email. Inr (fst (zerobounce_verify_email E zerobounce email))),
             svc_bulk_verify =
               Some (\<lambda>emails. Inr (fst (zerobounce_bulk_verify E zerobounce emails)))\<rparr>),
         (''mailboxlayer'',
            \<lparr>svc_api_key = mailboxlayer,
             svc_verify_email =
               (\<lambda>email. Inr (fst (mailboxlayer_verify_email E mailboxlayer email))),
             svc_bulk_verify =
               Some (\<lambda>emails. Inr (fst (mailboxlayer_bulk_verify E mailboxlayer emails)))\<rparr>),
         (''neutrinoapi'',
            \<lparr>svc_api_key = snd neutrinoapi,
             svc_verify_email =
               (\<lambda>email. Inr (fst (neutrinoapi_verify_email E neutrinoapi email))),
             svc_bulk_verify =
               Some (\<lambda>emails. Inr (fst (neutrinoapi_bulk_verify E neutrinoapi emails)))\<rparr>),
         (''spokeo'',
            \<lparr>svc_api_key = spokeo,
             svc_verify_email = (\<lambda>email. Inr (fst (spokeo_verify_email E spokeo email))),
             svc_bulk_verify =
               Some (\<lambda>emails. Inr (fst (spokeo_bulk_verify E spokeo emails)))\<rparr>),
         (''hunter'',
            \<lparr>svc_api_key = hunter,
             svc_verify_email = (\<lambda>email. Inr (fst (hunter_verify_email E hunter email))),
             svc_bulk_verify =
               Some (\<lambda>emails. Inr (fst (hunter_bulk_verify E hunter emails)))\<rparr>)])"

definition get_available_services :: "(string \<times> service) list \<Rightarrow> string list" where
  "get_available_services services =
    map fst (filter (\<lambda>(name, service). given (svc_api_key service)) services)"

subsection \<open>The table of results\<close>

text \<open>
  The table, the number of insertions attempted so far and the number of aggregate calls
  made so far (the two counters index the environment).
\<close>

record world =
  rows :: "verification_row list"
  commits :: nat
  calls :: nat

definition store_verification_result :: "env \<Rightarrow> pydict \<Rightarrow> world \<Rightarrow> world" where
  "store_verification_result E result w =
    (if result = [] \<or> \<not> dict_has result ''email'' then w
     else
       let verification =
             \<lparr>row_email = dict_get result ''email'' PNone,
              row_is_valid = dict_get result ''is_valid'' PNone,
              row_score = dict_get result ''score'' PNone,
              row_provider = dict_get result ''provider'' PNone,
              row_details = dict_get result ''details'' PNone\<rparr>
       in if commit_fails E (commits w) verification
          then w\<lparr>commits := Suc (commits w)\<rparr>
          else w\<lparr>rows := rows w @ [verification], commits := Suc (commits w)\<rparr>)"

subsection \<open>Dispatch and collection\<close>

text \<open>
  The future of \<^verbatim>\<open>executor.submit(self.services[name].verify_email, email)\<close> holds
  what the call returned or raised. The calls run in worker threads and share nothing
  with the loop that collects them, so a future is determined by the service and the
  address. The names come from the registry, so the lookup cannot fail.
\<close>

definition submit :: "(string \<times> service) list \<Rightarrow> string \<Rightarrow> string \<Rightarrow> pyexc + pydict" where
  "submit services name email =
    (case map_of services name of
       None \<Rightarrow> Inl (KeyError name)
     | Some service \<Rightarrow> svc_verify_email service email)"

text \<open>
  \<^verbatim>\<open>as_completed\<close> yields the futures in the order they finish, which may be any order:
  the next number of the schedule picks one among those still pending, and once the
  schedule is used up the rest follow in submission order.
\<close>

fun as_completed :: "nat list \<Rightarrow> 'a list \<Rightarrow> 'a list" where
  "as_completed ks [] = []"
| "as_completed [] xs = xs"
| "as_completed (k # ks) xs =
     (let i = k mod length xs
      in xs ! i # as_completed ks (take i xs @ drop (Suc i) xs))"

record tally =
  results :: pydict
  valid_count :: nat
  total_score :: real
  service_count :: nat

text \<open>
  The body of the loop over the completed futures: the \<^verbatim>\<open>try\<close> block stops at the
  first statement that raises, and the handler then overwrites the entry of the service.
\<close>

definition collect ::
  "env \<Rightarrow> string \<Rightarrow> (pyexc + pydict) \<times> string \<Rightarrow> tally \<times> world \<Rightarrow> tally \<times> world" where
  "collect E email future tw =
    (let t = fst tw; w = snd tw; service_name = snd future;
         handler = (\<lambda>e. PDict [(''email'', PStr email), (''error'', PStr (str_exc E e)),
                                (''provider'', PStr service_name)])
     in case fst future of
          Inl e \<Rightarrow> (t\<lparr>results := dict_set service_name (handler e) (results t)\<rparr>, w)
        | Inr service_result \<Rightarrow>
            let t1 = t\<lparr>results := dict_set service_name (PDict service_result) (results t)\<rparr>;
                w1 = store_verification_result E service_result w;
                t2 = (if truthy (dict_get service_result ''is_valid'' PNone)
                      then t1\<lparr>valid_count := valid_count t1 + 1\<rparr> else t1)
            in if dict_get service_result ''score'' PNone \<noteq> PNone then
                 (case to_float (dict_get service_result ''score'' (PFloat 0)) of
                    None \<Rightarrow>
                      (t2\<lparr>results :=
                            dict_set service_name
                              (handler (TypeError (dict_get service_result ''score'' (PFloat 0))))
                              (results t2)\<rparr>, w1)
                  | Some x \<Rightarrow>
                      (t2\<lparr>total_score := total_score t2 + x,
                          service_count := service_count t2 + 1\<rparr>, w1))
               else (t2, w1))"

subsection \<open>\<^verbatim>\<open>verify_email\<close> and \<^verbatim>\<open>bulk_verify\<close>\<close>

definition not_found :: "string \<Rightarrow> string" where
  "not_found service_name = ''Service '' @ [CHR 0x27] @ service_name @ [CHR 0x27] @ '' not found''"

definition verify_email ::
  "env \<Rightarrow> (string \<times> service) list \<Rightarrow> string \<Rightarrow> string option \<Rightarrow> world
     \<Rightarrow> (pyexc + pydict) \<times> world" where
  "verify_email E services email service_name w =
    (if given service_name then
       (case map_of services (text_of service_name) of
          None \<Rightarrow>
            (Inr [(''email'', PStr email),
                  (''error'', PStr (not_found (text_of service_name))),
                  (''verified'', PBool False)], w)
        | Some service \<Rightarrow>
            (case svc_verify_email service email of
               Inl e \<Rightarrow> (Inl e, w)
             | Inr result \<Rightarrow> (Inr result, store_verification_result E result w)))
     else
       let available_services = get_available_services services in
       if available_services = [] then
         (Inr [(''email'', PStr email),
               (''error'', PStr ''No verification services are configured with API keys''),
               (''verified'', PBool False)], w)
       else
         let future_to_service =
               map (\<lambda>name. (submit services name email, name)) available_services;
             tw = fold (collect E email)
                    (as_completed (arrival E (calls w)) future_to_service)
                    (\<lparr>results = [], valid_count = 0, total_score = 0, service_count = 0\<rparr>, w);
             t = fst tw;
             is_valid = (if valid_count t > 0
                         then PBool (real (valid_count t) \<ge> real (length available_services) / 2)
                         else PNone);
             aggregate_score = (if service_count t > 0
                                then PFloat (total_score t / real (service_count t))
                                else PNone)
         in (Inr [(''email'', PStr email),
                  (''is_valid'', is_valid),
                  (''score'', aggregate_score),
                  (''results'', PDict (results t)),
                  (''verified_by'', PInt (int (length (results t)))),
                  (''verification_date'', PStr (utcnow E (calls w)))],
             (snd tw)\<lparr>calls := Suc (calls w)\<rparr>))"

text \<open>
  The two loops of \<^verbatim>\<open>bulk_verify\<close>: an exception of a call leaves the loop, and
  the results are appended in the order of the input.
\<close>

fun each_service_verify ::
  "service \<Rightarrow> string list \<Rightarrow> pyexc + pyval list" where
  "each_service_verify service [] = Inr []"
| "each_service_verify service (email # emails) =
     (case svc_verify_email service email of
        Inl e \<Rightarrow> Inl e
      | Inr r \<Rightarrow> (case each_service_verify service emails of
                    Inl e \<Rightarrow> Inl e
                  | Inr rs \<Rightarrow> Inr (PDict r # rs)))"

fun each_verify_email ::
  "env \<Rightarrow> (string \<times> service) list \<Rightarrow> string list \<Rightarrow> world
     \<Rightarrow> (pyexc + pyval list) \<times> world" where
  "each_verify_email E services [] w = (Inr [], w)"
| "each_verify_email E services (email # emails) w =
     (case verify_email E services email None w of
        (Inl e, w1) \<Rightarrow> (Inl e, w1)
      | (Inr r, w1) \<Rightarrow>
          (case each_verify_email E services emails w1 of
             (Inl e, w2) \<Rightarrow> (Inl e, w2)
           | (Inr rs, w2) \<Rightarrow> (Inr (PDict r # rs), w2)))"

definition bulk_verify ::
  "env \<Rightarrow> (string \<times> service) list \<Rightarrow> string list \<Rightarrow> string option \<Rightarrow> world
     \<Rightarrow> (pyexc + pyval) \<times> world" where
  "bulk_verify E services emails service_name w =
    (if emails = [] then (Inr (PDict [(''error'', PStr ''No emails provided'')]), w)
     else if given service_name then
       (case map_of services (text_of service_name) of
          None \<Rightarrow>
            (Inr (PDict [(''error'', PStr (not_found (text_of service_name)))]), w)
        | Some service \<Rightarrow>
            (case svc_bulk_verify service of
               Some bulk \<Rightarrow> (bulk emails, w)
             | None \<Rightarrow>
                 (case each_service_verify service emails of
                    Inl e \<Rightarrow> (Inl e, w)
                  | Inr rs \<Rightarrow> (Inr (PDict [(''results'', PList rs)]), w))))
     else
       (case each_verify_email E services emails w of
          (Inl e, w1) \<Rightarrow> (Inl e, w1)
        | (Inr rs, w1) \<Rightarrow> (Inr (PDict [(''results'', PList rs)]), w1)))"

section \<open>Notions used to state the properties\<close>

text \<open>
  The futures of an aggregate call, in submission order (\<^verbatim>\<open>future_to_service\<close>) and in
  the order in which the loop of \<^verbatim>\<open>verify_email\<close> meets them.
\<close>

definition dispatched ::
  "(string \<times> service) list \<Rightarrow> string \<Rightarrow> ((pyexc + pydict) \<times> string) list" where
  "dispatched services email =
    map (\<lambda>name. (submit services name email, name)) (get_available_services services)"

definition arrived ::
  "env \<Rightarrow> world \<Rightarrow> (string \<times> service) list \<Rightarrow> string \<Rightarrow> ((pyexc + pydict) \<times> string) list"
  where
  "arrived E w services email = as_completed (arrival E (calls w)) (dispatched services email)"

text \<open>
  What a future holds: the dictionary its task returned, if it returned one, and the
  value that dictionary gives for a key (\<open>PNone\<close> when the task raised, as
  \<^verbatim>\<open>.get\<close> answers on the entry made for it).
\<close>

definition returned :: "(pyexc + pydict) \<times> string \<Rightarrow> pydict list" where
  "returned f = (case fst f of Inl e \<Rightarrow> [] | Inr r \<Rightarrow> [r])"

definition reported :: "string \<Rightarrow> (pyexc + pydict) \<times> string \<Rightarrow> pyval" where
  "reported k f = (case fst f of Inl e \<Rightarrow> PNone | Inr r \<Rightarrow> dict_get r k PNone)"

definition score_value :: "(pyexc + pydict) \<times> string \<Rightarrow> real option" where
  "score_value f = to_float (reported ''score'' f)"

text \<open>The scores that the loop adds up, in the order of the given futures.\<close>

definition counted_scores :: "((pyexc + pydict) \<times> string) list \<Rightarrow> real list" where
  "counted_scores fs =
    concat (map (\<lambda>f. case score_value f of None \<Rightarrow> [] | Some x \<Rightarrow> [x]) fs)"

text \<open>
  The number of dispatched adapters whose result passes the test
  \<^verbatim>\<open>if service_result.get("is_valid")\<close>.
\<close>

definition valid_votes :: "((pyexc + pydict) \<times> string) list \<Rightarrow> nat" where
  "valid_votes fs = length (filter (\<lambda>f. truthy (reported ''is_valid'' f)) fs)"

text \<open>The entry that the exception handler of the loop writes for a service.\<close>

definition error_entry :: "env \<Rightarrow> string \<Rightarrow> string \<Rightarrow> pyexc \<Rightarrow> pyval" where
  "error_entry E email name e =
    PDict [(''email'', PStr email), (''error'', PStr (str_exc E e)), (''provider'', PStr name)]"

text \<open>
  The entry of a service in \<^verbatim>\<open>results\<close> as a function of its own future alone: the
  handler's entry when the task raised or when its score cannot be added to a float,
  the returned dictionary otherwise.
\<close>

definition entry_of :: "env \<Rightarrow> string \<Rightarrow> (pyexc + pydict) \<times> string \<Rightarrow> pyval" where
  "entry_of E email f =
    (case fst f of
       Inl e \<Rightarrow> error_entry E email (snd f) e
     | Inr r \<Rightarrow>
         if reported ''score'' f \<noteq> PNone \<and> score_value f = None
         then error_entry E email (snd f) (TypeError (reported ''score'' f))
         else PDict r)"

text \<open>The scores found in a \<^verbatim>\<open>results\<close> mapping, as numbers.\<close>

definition entry_score :: "pyval \<Rightarrow> real list" where
  "entry_score v =
    (case v of
       PDict r \<Rightarrow> (case to_float (dict_get r ''score'' PNone) of None \<Rightarrow> [] | Some x \<Rightarrow> [x])
     | _ \<Rightarrow> [])"

definition present_scores :: "pydict \<Rightarrow> real list" where
  "present_scores res = concat (map (\<lambda>p. entry_score (snd p)) res)"

text \<open>The row that \<^verbatim>\<open>_store_verification_result\<close> builds from a result.\<close>

definition row_of :: "pydict \<Rightarrow> verification_row" where
  "row_of result =
    \<lparr>row_email = dict_get result ''email'' PNone,
     row_is_valid = dict_get result ''is_valid'' PNone,
     row_score = dict_get result ''score'' PNone,
     row_provider = dict_get result ''provider'' PNone,
     row_details = dict_get result ''details'' PNone\<rparr>"

text \<open>The address of an element of the list that \<^verbatim>\<open>bulk_verify\<close> returns.\<close>

definition email_of :: "pyval \<Rightarrow> pyval" where
  "email_of v = (case v of PDict d \<Rightarrow> dict_get d ''email'' PNone | _ \<Rightarrow> PNone)"

section \<open>Concrete runs\<close>

definition w0 :: world where
  "w0 = \<lparr>rows = [], commits = 0, calls = 0\<rparr>"

text \<open>No credential at all in the environment.\<close>

definition env_no_keys :: env where
  "env_no_keys =
    \<lparr>getenv = (\<lambda>k. None),
     http = (\<lambda>r. Inl (RequestException ''unreachable'')),
     str_exc = (\<lambda>e. ''failure''),
     commit_fails = (\<lambda>k r. False),
     arrival = (\<lambda>k. []),
     utcnow = (\<lambda>k. ''2024-01-01T00:00:00'')\<rparr>"

text \<open>A reply of Hunter's verifier as its API documents it, with a score out of 100.\<close>

definition env_hunter :: env where
  "env_hunter =
    \<lparr>getenv = (\<lambda>k. if k = ''HUNTER_API_KEY'' then Some ''key'' else None),
     http = (\<lambda>r. Inr (PDict [(''data'', PDict [(''status'', PStr ''valid''),
                                                 (''score'', PInt 91)])])),
     str_exc = (\<lambda>e. ''failure''),
     commit_fails = (\<lambda>k r. False),
     arrival = (\<lambda>k. []),
     utcnow = (\<lambda>k. ''2024-01-01T00:00:00'')\<rparr>"

text \<open>
  Four adapters with a credential (Hunter has none). ZeroBounce answers "valid",
  MailboxLayer and NeutrinoAPI answer negatively, the request of Spokeo fails.
\<close>

definition env_one_valid :: env where
  "env_one_valid =
    \<lparr>getenv = (\<lambda>k. if k = ''HUNTER_API_KEY'' then None else Some ''secret''),
     http = (\<lambda>r. if url r = ''https://api.zerobounce.net/v2/validate''
                    then Inr (PDict [(''status'', PStr ''valid'')])
                  else if url r = ''https://api.mailboxlayer.com/check''
                    then Inr (PDict [(''format_valid'', PBool True), (''mx_found'', PBool False)])
                  else if url r = ''https://neutrinoapi.net/email-validate''
                    then Inr (PDict [(''valid'', PBool False)])
                  else Inl (RequestException ''timed out'')),
     str_exc = (\<lambda>e. ''failure''),
     commit_fails = (\<lambda>k r. False),
     arrival = (\<lambda>k. [2, 0]),
     utcnow = (\<lambda>k. ''2024-01-01T00:00:00'')\<rparr>"

text \<open>The same, except that MailboxLayer answers positively on its three checks.\<close>

definition env_two_valid :: env where
  "env_two_valid =
    \<lparr>getenv = (\<lambda>k. if k = ''HUNTER_API_KEY'' then None else Some ''secret''),
     http = (\<lambda>r. if url r = ''https://api.zerobounce.net/v2/validate''
                    then Inr (PDict [(''status'', PStr ''valid'')])
                  else if url r = ''https://api.mailboxlayer.com/check''
                    then Inr (PDict [(''format_valid'', PBool True), (''mx_found'', PBool True),
                                     (''smtp_check'', PBool True)])
                  else if url r = ''https://neutrinoapi.net/email-validate''
                    then Inr (PDict [(''valid'', PBool False)])
                  else Inl (RequestException ''timed out'')),
     str_exc = (\<lambda>e. ''failure''),
     commit_fails = (\<lambda>k r. False),
     arrival = (\<lambda>k. [3, 1]),
     utcnow = (\<lambda>k. ''2024-01-01T00:00:00'')\<rparr>"

text \<open>
  A registry of stand-in services: three have a key, and the task of the second one
  raises instead of returning.
\<close>

definition stub_services :: "(string \<times> service) list" where
  "stub_services =
    [(''zerobounce'',
        \<lparr>svc_api_key = Some ''k1'',
         svc_verify_email =
           (\<lambda>email. Inr [(''email'', PStr email), (''is_valid'', PBool True),
                          (''score'', PFloat 1), (''provider'', PStr ''zerobounce'')]),
         svc_bulk_verify = None\<rparr>),
     (''mailboxlayer'',
        \<lparr>svc_api_key = Some ''k2'',
         svc_verify_email = (\<lambda>email. Inl (RequestException ''worker crashed'')),
         svc_bulk_verify = None\<rparr>),
     (''neutrinoapi'',
        \<lparr>svc_api_key = Some ''k3'',
         svc_verify_email =
           (\<lambda>email. Inr [(''email'', PStr email), (''is_valid'', PBool False),
                          (''score'', PFloat (1 / 2)), (''provider'', PStr ''neutrinoapi'')]),
         svc_bulk_verify = None\<rparr>),
     (''spokeo'',
        \<lparr>svc_api_key = None,
         svc_verify_email =
           (\<lambda>email. Inr [(''email'', PStr email), (''is_valid'', PNone),
                          (''error'', PStr ''API key not provided''),
                          (''provider'', PStr ''spokeo'')]),
         svc_bulk_verify = None\<rparr>)]"

definition env_stub :: env where
  "env_stub =
    \<lparr>getenv = (\<lambda>k. None),
     http = (\<lambda>r. Inl (RequestException ''unreachable'')),
     str_exc = (\<lambda>e. ''failure''),
     commit_fails = (\<lambda>k r. False),
     arrival = (\<lambda>k. [1, 1]),
     utcnow = (\<lambda>k. ''2024-01-01T00:00:00'')\<rparr>"

text \<open>
  Four adapters with a credential (NeutrinoAPI has no key). MailboxLayer passes four
  checks out of five, Hunter reports the score 0.6, and the requests of ZeroBounce and
  Spokeo fail.
\<close>

definition env_scores :: env where
  "env_scores =
    \<lparr>getenv = (\<lambda>k. if k = ''NEUTRINOAPI_API_KEY'' then None else Some ''secret''),
     http = (\<lambda>r. if url r = ''https://api.mailboxlayer.com/check''
                    then Inr (PDict [(''format_valid'', PBool True), (''mx_found'', PBool True),
                                     (''smtp_check'', PBool True), (''disposable'', PBool False),
                                     (''free'', PBool True)])
                  else if url r = ''https://api.hunter.io/v2/email-verifier''
                    then Inr (PDict [(''data'', PDict [(''status'', PStr ''valid''),
                                                       (''score'', PFloat (6 / 10))])])
                  else Inl (RequestException ''timed out'')),
     str_exc = (\<lambda>e. ''failure''),
     commit_fails = (\<lambda>k r. False),
     arrival = (\<lambda>k. [3, 0, 1]),
     utcnow = (\<lambda>k. ''2024-01-01T00:00:00'')\<rparr>"

text \<open>Only ZeroBounce has a key; it answers "valid" to every request.\<close>

definition env_zerobounce_only :: env where
  "env_zerobounce_only =
    \<lparr>getenv = (\<lambda>k. if k = ''ZEROBOUNCE_API_KEY'' then Some ''secret'' else None),
     http = (\<lambda>r. Inr (PDict [(''status'', PStr ''valid'')])),
     str_exc = (\<lambda>e. ''failure''),
     commit_fails = (\<lambda>k r. False),
     arrival = (\<lambda>k. [k]),
     utcnow = (\<lambda>k. ''2024-01-01T00:00:00'')\<rparr>"

section \<open>Properties\<close>

subsection \<open>No enabled adapter\<close>

lemma no_keys_available:
  "get_available_services (EmailVerificationManager env_no_keys) = []"
  by (simp add: get_available_services_def EmailVerificationManager_def env_no_keys_def
      ZeroBounceService_def MailboxLayerService_def NeutrinoAPIService_def SpokeoService_def
      HunterService_def py_or_def given_def Let_def)

text \<open>
  C7 (amended). An aggregate call (no provider selected) with no enabled adapter returns
  a dictionary without an \<^verbatim>\<open>is_valid\<close> entry, whose \<^verbatim>\<open>error\<close> is
  "No verification services are configured with API keys", and leaves the table and
  the count of attempted insertions as they were.
\<close>

theorem verify_email_no_services:
  assumes "\<not> given service_name" and "get_available_services services = []"
  shows "verify_email E services email service_name w =
           (Inr [(''email'', PStr email),
                 (''error'', PStr ''No verification services are configured with API keys''),
                 (''verified'', PBool False)], w)
         \<and> map_of [(''email'', PStr email),
                 (''error'', PStr ''No verification services are configured with API keys''),
                 (''verified'', PBool False)] ''is_valid'' = None"
  using assms by (simp add: verify_email_def)

theorem verify_email_no_services_witness:
  "\<not> given None
   \<and> get_available_services (EmailVerificationManager env_no_keys) = []
   \<and> verify_email env_no_keys (EmailVerificationManager env_no_keys) ''a@x.com'' None w0 =
       (Inr [(''email'', PStr ''a@x.com''),
             (''error'', PStr ''No verification services are configured with API keys''),
             (''verified'', PBool False)], w0)"
proof -
  have g: "\<not> given None" by (simp add: given_def)
  from verify_email_no_services [OF g no_keys_available] g no_keys_available
  show ?thesis by simp
qed

theorem verify_email_no_services_counterexample:
  "fst (verify_email env_no_keys (EmailVerificationManager env_no_keys) ''a@x.com'' None w0) =
     Inr [(''email'', PStr ''a@x.com''),
          (''error'', PStr ''No verification services are configured with API keys''),
          (''verified'', PBool False)]
   \<and> PStr ''No verification services are configured with API keys''
       \<noteq> PStr ''no services configured''"
  by (simp add: verify_email_def no_keys_available given_def)

subsection \<open>Adapters without a credential\<close>

text \<open>
  C3 (amended). An adapter whose credential is not configured returns, for every
  address, a result with \<^verbatim>\<open>is_valid\<close> \<open>None\<close> and sends no request; its
  \<^verbatim>\<open>error\<close> is "API key not provided" for ZeroBounce, MailboxLayer, Spokeo and Hunter,
  and "API credentials not provided" for NeutrinoAPI (which needs a key and a user id).
\<close>

theorem verify_email_without_credential:
  "(\<not> given api_key \<longrightarrow>
      zerobounce_verify_email E api_key email =
        ([(''email'', PStr email), (''is_valid'', PNone),
          (''error'', PStr ''API key not provided''), (''provider'', PStr ''zerobounce'')], []))
   \<and> (\<not> given api_key \<longrightarrow>
      mailboxlayer_verify_email E api_key email =
        ([(''email'', PStr email), (''is_valid'', PNone),
          (''error'', PStr ''API key not provided''), (''provider'', PStr ''mailboxlayer'')], []))
   \<and> (\<not> (given api_key \<and> given user_id) \<longrightarrow>
      neutrinoapi_verify_email E (user_id, api_key) email =
        ([(''email'', PStr email), (''is_valid'', PNone),
          (''error'', PStr ''API credentials not provided''),
          (''provider'', PStr ''neutrinoapi'')], []))
   \<and> (\<not> given api_key \<longrightarrow>
      spokeo_verify_email E api_key email =
        ([(''email'', PStr email), (''is_valid'', PNone),
          (''error'', PStr ''API key not provided''), (''provider'', PStr ''spokeo'')], []))
   \<and> (\<not> given api_key \<longrightarrow>
      hunter_verify_email E api_key email =
        ([(''email'', PStr email), (''is_valid'', PNone),
          (''error'', PStr ''API key not provided''), (''provider'', PStr ''hunter'')], []))"
  by (simp add: zerobounce_verify_email_def mailboxlayer_verify_email_def
      neutrinoapi_verify_email_def spokeo_verify_email_def hunter_verify_email_def)

theorem verify_email_without_credential_witness:
  "\<not> given None \<and> \<not> (given None \<and> given (Some ''user''))
   \<and> zerobounce_verify_email env_no_keys None ''a@x.com'' =
        ([(''email'', PStr ''a@x.com''), (''is_valid'', PNone),
          (''error'', PStr ''API key not provided''), (''provider'', PStr ''zerobounce'')], [])
   \<and> neutrinoapi_verify_email env_no_keys (Some ''user'', None) ''a@x.com'' =
        ([(''email'', PStr ''a@x.com''), (''is_valid'', PNone),
          (''error'', PStr ''API credentials not provided''),
          (''provider'', PStr ''neutrinoapi'')], [])
   \<and> hunter_verify_email env_no_keys None ''a@x.com'' =
        ([(''email'', PStr ''a@x.com''), (''is_valid'', PNone),
          (''error'', PStr ''API key not provided''), (''provider'', PStr ''hunter'')], [])"
proof -
  have g: "\<not> given None" by (simp add: given_def)
  from verify_email_without_credential [of None env_no_keys "''a@x.com''" "Some ''user''"] g
  show ?thesis by simp
qed

theorem verify_email_without_credential_counterexample:
  "\<not> (given None \<and> given None)
   \<and> neutrinoapi_verify_email env_no_keys (None, None) ''a@x.com'' =
        ([(''email'', PStr ''a@x.com''), (''is_valid'', PNone),
          (''error'', PStr ''API credentials not provided''),
          (''provider'', PStr ''neutrinoapi'')], [])
   \<and> PStr ''API credentials not provided'' \<noteq> PStr ''API key not provided''"
  by (simp add: neutrinoapi_verify_email_def given_def)

subsection \<open>Scores of the adapters\<close>

text \<open>
  The scores that ZeroBounce, MailboxLayer, NeutrinoAPI and Spokeo results carry are
  floats between 0 and 1.
\<close>

lemma passed_fraction_in_unit: "0 \<le> passed_fraction fs \<and> passed_fraction fs \<le> 1"
proof -
  have "length (filter truthy fs) \<le> length fs" by (rule length_filter_le)
  then have "real (length (filter truthy fs)) \<le> real (length fs)" by simp
  then show ?thesis by (simp add: passed_fraction_def divide_le_eq_1)
qed

lemma zerobounce_score_in_unit:
  assumes "map_of (fst (zerobounce_verify_email E api_key email)) ''score'' = Some v"
  shows "\<exists>x. v = PFloat x \<and> 0 \<le> x \<and> x \<le> 1"
  using assms
  by (auto simp: zerobounce_verify_email_def Let_def split: if_splits sum.splits pyval.splits)

lemma spokeo_score_in_unit:
  assumes "map_of (fst (spokeo_verify_email E api_key email)) ''score'' = Some v"
  shows "\<exists>x. v = PFloat x \<and> 0 \<le> x \<and> x \<le> 1"
  using assms
  by (auto simp: spokeo_verify_email_def Let_def split: if_splits sum.splits)

lemma mailboxlayer_score_in_unit:
  assumes "map_of (fst (mailboxlayer_verify_email E api_key email)) ''score'' = Some v"
  shows "\<exists>x. v = PFloat x \<and> 0 \<le> x \<and> x \<le> 1"
  using assms
  by (auto simp: mailboxlayer_verify_email_def Let_def passed_fraction_in_unit
      split: if_splits sum.splits pyval.splits option.splits)

lemma neutrinoapi_score_in_unit:
  assumes "map_of (fst (neutrinoapi_verify_email E self email)) ''score'' = Some v"
  shows "\<exists>x. v = PFloat x \<and> 0 \<le> x \<and> x \<le> 1"
  using assms
  by (auto simp: neutrinoapi_verify_email_def Let_def passed_fraction_in_unit
      split: if_splits sum.splits pyval.splits)

text \<open>
  C4 (fails for Hunter). The Hunter adapter copies the provider's own \<^verbatim>\<open>score\<close> into
  the result unchanged: on a reply with status "valid" and score 91 the result carries
  the score 91, above 1.
\<close>

theorem hunter_score_not_normalised:
  "fst (hunter_verify_email env_hunter (HunterService env_hunter None) ''a@x.com'') =
     [(''email'', PStr ''a@x.com''), (''is_valid'', PBool True), (''score'', PInt 91),
      (''provider'', PStr ''hunter''),
      (''details'', PDict [(''status'', PStr ''valid''), (''score'', PInt 91)])]
   \<and> to_float (PInt 91) = Some 91 \<and> \<not> (91 :: real) \<le> 1"
  by (simp add: hunter_verify_email_def HunterService_def env_hunter_def py_or_def given_def
      dict_get_def Let_def)

subsection \<open>The loop of the aggregate call\<close>

lemma dict_get_default:
  "dict_get d k PNone \<noteq> PNone \<Longrightarrow> dict_get d k x = dict_get d k PNone"
  by (auto simp: dict_get_def split: option.splits)

lemma dict_set_twice: "dict_set k v (dict_set k v' d) = dict_set k v d"
  by (induction d) auto

lemma dict_set_fresh: "k \<notin> fst ` set d \<Longrightarrow> dict_set k v d = d @ [(k, v)]"
  by (induction d) auto

text \<open>One pass of the loop body, field by field.\<close>

lemma collect_eq:
  "collect E email f (t, w) =
    (t\<lparr>results := dict_set (snd f) (entry_of E email f) (results t),
       valid_count := valid_count t + valid_votes [f],
       total_score := total_score t + sum_list (counted_scores [f]),
       service_count := service_count t + length (counted_scores [f])\<rparr>,
     fold (store_verification_result E) (returned f) w)"
proof (cases "fst f")
  case (Inl e)
  then show ?thesis
    by (simp add: collect_def entry_of_def error_entry_def reported_def score_value_def
        returned_def valid_votes_def counted_scores_def Let_def)
next
  case (Inr r)
  show ?thesis
  proof (cases "dict_get r ''score'' PNone = PNone")
    case True
    with Inr show ?thesis
      by (simp add: collect_def entry_of_def reported_def score_value_def returned_def
          valid_votes_def counted_scores_def Let_def)
  next
    case False
    then have g: "dict_get r ''score'' (PFloat 0) = dict_get r ''score'' PNone"
      by (rule dict_get_default)
    from Inr False show ?thesis
      by (cases "to_float (dict_get r ''score'' PNone)")
         (simp_all add: collect_def entry_of_def error_entry_def reported_def score_value_def
            returned_def valid_votes_def counted_scores_def Let_def g dict_set_twice)
  qed
qed

lemma valid_votes_Cons: "valid_votes (f # fs) = valid_votes [f] + valid_votes fs"
  by (simp add: valid_votes_def)

lemma counted_scores_Cons: "counted_scores (f # fs) = counted_scores [f] @ counted_scores fs"
  by (simp add: counted_scores_def)

lemma fold_collect:
  "fold (collect E email) fs (t, w) =
    (t\<lparr>results := fold (\<lambda>f. dict_set (snd f) (entry_of E email f)) fs (results t),
       valid_count := valid_count t + valid_votes fs,
       total_score := total_score t + sum_list (counted_scores fs),
       service_count := service_count t + length (counted_scores fs)\<rparr>,
     fold (store_verification_result E) (concat (map returned fs)) w)"
proof (induction fs arbitrary: t w)
  case Nil
  then show ?case by (simp add: valid_votes_def counted_scores_def)
next
  case (Cons f fs)
  show ?case
    by (simp add: collect_eq Cons.IH valid_votes_Cons [of f fs] counted_scores_Cons [of f fs]
        add.assoc del: fold_simps)
qed

lemma fold_dict_set_fresh:
  assumes "distinct (map snd fs)" and "snd ` set fs \<inter> fst ` set d = {}"
  shows "fold (\<lambda>f. dict_set (snd f) (g f)) fs d = d @ map (\<lambda>f. (snd f, g f)) fs"
  using assms
proof (induction fs arbitrary: d)
  case Nil
  then show ?case by simp
next
  case (Cons f fs)
  have fresh: "snd f \<notin> fst ` set d" using Cons.prems(2) by auto
  have "snd ` set fs \<inter> fst ` set (d @ [(snd f, g f)]) = {}"
    using Cons.prems by (auto simp: image_iff)
  with Cons.IH [of "d @ [(snd f, g f)]"] Cons.prems(1) show ?case
    by (simp add: dict_set_fresh [OF fresh])
qed

text \<open>Whatever the schedule, \<open>as_completed\<close> yields each future exactly once.\<close>

lemma mset_as_completed: "mset (as_completed ks xs) = mset xs"
proof (induction ks xs rule: as_completed.induct)
  case (3 k ks x xs)
  let ?ys = "x # xs"
  let ?i = "k mod length ?ys"
  have lt: "?i < length ?ys" by simp
  have "mset ?ys = mset (take ?i ?ys @ ?ys ! ?i # drop (Suc ?i) ?ys)"
    using id_take_nth_drop [OF lt] by simp
  then show ?case using 3
    by (simp add: Let_def del: take_Suc_Cons drop_Suc_Cons nth_Cons_Suc)
qed simp_all

lemma mset_arrived: "mset (arrived E w services email) = mset (dispatched services email)"
  by (simp add: arrived_def mset_as_completed)

lemma valid_votes_mset: "mset fs = mset gs \<Longrightarrow> valid_votes fs = valid_votes gs"
proof -
  assume "mset fs = mset gs"
  then have "mset (filter (\<lambda>f. truthy (reported ''is_valid'' f)) fs)
      = mset (filter (\<lambda>f. truthy (reported ''is_valid'' f)) gs)"
    by simp
  then show ?thesis unfolding valid_votes_def by (rule mset_eq_length)
qed

lemma length_dispatched:
  "length (dispatched services email) = length (get_available_services services)"
  by (simp add: dispatched_def)

lemma snd_dispatched: "map snd (dispatched services email) = get_available_services services"
  by (simp add: dispatched_def comp_def)

lemma distinct_available:
  "distinct (map fst services) \<Longrightarrow> distinct (get_available_services services)"
  by (simp add: get_available_services_def distinct_map_filter)

lemma distinct_arrived:
  assumes "distinct (map fst services)"
  shows "distinct (map snd (arrived E w services email))"
proof -
  have "mset (map snd (arrived E w services email)) = mset (map snd (dispatched services email))"
    by (simp add: mset_arrived)
  then have "distinct (map snd (arrived E w services email))
      = distinct (map snd (dispatched services email))"
    by (rule mset_eq_imp_distinct_iff)
  then show ?thesis using assms by (simp add: snd_dispatched distinct_available)
qed

text \<open>The aggregate call, once the loop has been run.\<close>

lemma verify_email_aggregate:
  assumes "\<not> given service_name" and "get_available_services services \<noteq> []"
  shows "verify_email E services email service_name w =
    (Inr [(''email'', PStr email),
          (''is_valid'',
             if valid_votes (arrived E w services email) = 0 then PNone
             else PBool (real (length (get_available_services services)) / 2
                          \<le> real (valid_votes (arrived E w services email)))),
          (''score'',
             if counted_scores (arrived E w services email) = [] then PNone
             else PFloat (sum_list (counted_scores (arrived E w services email))
                            / real (length (counted_scores (arrived E w services email))))),
          (''results'',
             PDict (fold (\<lambda>f. dict_set (snd f) (entry_of E email f))
                      (arrived E w services email) [])),
          (''verified_by'',
             PInt (int (length (fold (\<lambda>f. dict_set (snd f) (entry_of E email f))
                                  (arrived E w services email) [])))),
          (''verification_date'', PStr (utcnow E (calls w)))],
     (fold (store_verification_result E) (concat (map returned (arrived E w services email))) w)
       \<lparr>calls := Suc (calls w)\<rparr>)"
  using assms
  by (simp add: verify_email_def Let_def fold_collect arrived_def dispatched_def)

lemma aggregate_results:
  assumes "distinct (map fst services)"
  shows "fold (\<lambda>f. dict_set (snd f) (entry_of E email f)) (arrived E w services email) []
    = map (\<lambda>f. (snd f, entry_of E email f)) (arrived E w services email)"
  using fold_dict_set_fresh [OF distinct_arrived [OF assms], where d = "[]"] by simp

subsection \<open>Aggregate validity\<close>

lemma aggregate_is_valid:
  assumes "\<not> given service_name" and "get_available_services services \<noteq> []"
  shows "\<exists>agg. fst (verify_email E services email service_name w) = Inr agg
    \<and> map_of agg ''is_valid'' =
        Some (if valid_votes (dispatched services email) = 0 then PNone
              else PBool (real (length (get_available_services services)) / 2
                           \<le> real (valid_votes (dispatched services email))))"
  by (simp add: verify_email_aggregate [OF assms] valid_votes_mset [OF mset_arrived])

lemma truthy_tristate:
  "v \<in> {PNone, PBool False, PBool True} \<Longrightarrow> truthy v = (v = PBool True)"
  by auto

lemma valid_votes_tristate:
  assumes "\<forall>f\<in>set fs. reported ''is_valid'' f \<in> {PNone, PBool False, PBool True}"
  shows "valid_votes fs = length (filter (\<lambda>f. reported ''is_valid'' f = PBool True) fs)"
proof -
  have "filter (\<lambda>f. truthy (reported ''is_valid'' f)) fs
      = filter (\<lambda>f. reported ''is_valid'' f = PBool True) fs"
    using assms by (intro filter_cong refl truthy_tristate) simp
  then show ?thesis by (simp add: valid_votes_def)
qed

lemma half_le_iff_ceiling: "(real n / 2 \<le> real v) = (\<lceil>real n / 2\<rceil> \<le> int v)"
  by (simp add: ceiling_le_iff)

text \<open>
  C2. In an aggregate call with \<open>N \<ge> 1\<close> enabled adapters, let \<open>valid_votes\<close> be the
  number of dispatched adapters whose result has a true \<^verbatim>\<open>is_valid\<close> (the code tests
  its truth value, which for the three values \<open>None\<close>, \<open>False\<close>, \<open>True\<close> of a
  verification result means being \<open>True\<close>). Then the aggregate \<^verbatim>\<open>is_valid\<close> is
  \<open>None\<close> if \<open>valid_votes = 0\<close>, and otherwise the truth value of
  \<open>valid_votes \<ge> ceil (N / 2)\<close>, where \<open>N\<close> counts every dispatched adapter,
  including those that raised or reported no verdict.
\<close>

theorem aggregate_is_valid_majority:
  assumes "\<not> given service_name" and "get_available_services services \<noteq> []"
  shows "(\<exists>agg. fst (verify_email E services email service_name w) = Inr agg
      \<and> map_of agg ''is_valid'' =
          Some (if valid_votes (dispatched services email) = 0 then PNone
                else PBool (\<lceil>real (length (get_available_services services)) / 2\<rceil>
                             \<le> int (valid_votes (dispatched services email)))))
    \<and> length (dispatched services email) = length (get_available_services services)
    \<and> ((\<forall>f\<in>set (dispatched services email).
           reported ''is_valid'' f \<in> {PNone, PBool False, PBool True})
        \<longrightarrow> valid_votes (dispatched services email)
              = length (filter (\<lambda>f. reported ''is_valid'' f = PBool True)
                          (dispatched services email)))"
proof (intro conjI impI)
  show "\<exists>agg. fst (verify_email E services email service_name w) = Inr agg
      \<and> map_of agg ''is_valid'' =
          Some (if valid_votes (dispatched services email) = 0 then PNone
                else PBool (\<lceil>real (length (get_available_services services)) / 2\<rceil>
                             \<le> int (valid_votes (dispatched services email))))"
    using aggregate_is_valid [OF assms, of E email w] by (simp only: half_le_iff_ceiling)
  show "length (dispatched services email) = length (get_available_services services)"
    by (rule length_dispatched)
  assume "\<forall>f\<in>set (dispatched services email).
           reported ''is_valid'' f \<in> {PNone, PBool False, PBool True}"
  then show "valid_votes (dispatched services email)
      = length (filter (\<lambda>f. reported ''is_valid'' f = PBool True) (dispatched services email))"
    by (rule valid_votes_tristate)
qed

lemma two_valid_reports:
  "map (reported ''is_valid'') (dispatched (EmailVerificationManager env_two_valid) ''a@x.com'')
    = [PBool True, PBool True, PBool False, PNone]"
  by code_simp

lemma two_valid_available:
  "get_available_services (EmailVerificationManager env_two_valid)
    = [''zerobounce'', ''mailboxlayer'', ''neutrinoapi'', ''spokeo'']"
  by code_simp

theorem aggregate_is_valid_majority_witness:
  "\<not> given None
   \<and> get_available_services (EmailVerificationManager env_two_valid) \<noteq> []
   \<and> map (reported ''is_valid'')
        (dispatched (EmailVerificationManager env_two_valid) ''a@x.com'')
      = [PBool True, PBool True, PBool False, PNone]
   \<and> valid_votes (dispatched (EmailVerificationManager env_two_valid) ''a@x.com'') = 2
   \<and> (\<exists>agg. fst (verify_email env_two_valid (EmailVerificationManager env_two_valid)
                     ''a@x.com'' None w0) = Inr agg
          \<and> map_of agg ''is_valid'' = Some (PBool True))"
proof -
  let ?fs = "dispatched (EmailVerificationManager env_two_valid) ''a@x.com''"
  have g: "\<not> given None" by (simp add: given_def)
  have a: "get_available_services (EmailVerificationManager env_two_valid) \<noteq> []"
    by (simp add: two_valid_available)
  have "\<forall>v\<in>set (map (reported ''is_valid'') ?fs). v \<in> {PNone, PBool False, PBool True}"
    unfolding two_valid_reports by simp
  then have t: "\<forall>f\<in>set ?fs. reported ''is_valid'' f \<in> {PNone, PBool False, PBool True}"
    by simp
  have "length (filter (\<lambda>f. reported ''is_valid'' f = PBool True) ?fs)
      = length (filter (\<lambda>v. v = PBool True) (map (reported ''is_valid'') ?fs))"
    by (simp add: filter_map comp_def)
  also have "\<dots> = 2" unfolding two_valid_reports by simp
  finally have c: "length (filter (\<lambda>f. reported ''is_valid'' f = PBool True) ?fs) = 2" .
  from aggregate_is_valid_majority [OF g a, of env_two_valid "''a@x.com''" w0] t c
  have v: "valid_votes ?fs = 2" by simp
  from aggregate_is_valid_majority [OF g a, of env_two_valid "''a@x.com''" w0] v
  have "\<exists>agg. fst (verify_email env_two_valid (EmailVerificationManager env_two_valid)
                     ''a@x.com'' None w0) = Inr agg
          \<and> map_of agg ''is_valid'' = Some (PBool True)"
    by (simp add: two_valid_available)
  with g a v two_valid_reports show ?thesis by blast
qed

lemma valid_votes_reports:
  "valid_votes fs = size (filter_mset truthy (mset (map (reported ''is_valid'') fs)))"
proof -
  have "valid_votes fs = length (filter truthy (map (reported ''is_valid'') fs))"
    by (simp add: valid_votes_def filter_map comp_def)
  also have "\<dots> = size (mset (filter truthy (map (reported ''is_valid'') fs)))"
    by (simp only: size_mset)
  finally show ?thesis by (simp only: mset_filter)
qed

text \<open>
  C1 (amended). In an aggregate call with four enabled adapters whose results report
  \<^verbatim>\<open>is_valid\<close> as true, false, false and unknown (in any order), the aggregate
  \<^verbatim>\<open>is_valid\<close> is \<open>False\<close>: one valid vote is more than none, so the majority
  test is evaluated, and one is less than half of four.
\<close>

theorem aggregate_one_valid_of_four:
  assumes "\<not> given service_name"
    and "mset (map (reported ''is_valid'') (dispatched services email))
          = {#PBool True, PBool False, PBool False, PNone#}"
  shows "\<exists>agg. fst (verify_email E services email service_name w) = Inr agg
    \<and> map_of agg ''is_valid'' = Some (PBool False)"
proof -
  have "size (mset (map (reported ''is_valid'') (dispatched services email))) = 4"
    by (simp only: assms(2)) simp
  then have n: "length (get_available_services services) = 4"
    by (simp add: length_dispatched)
  then have a: "get_available_services services \<noteq> []" by auto
  have v: "valid_votes (dispatched services email) = 1"
    by (simp only: valid_votes_reports assms(2)) simp
  from aggregate_is_valid [OF assms(1) a, of E email w] n v show ?thesis by simp
qed

lemma one_valid_reports:
  "map (reported ''is_valid'') (dispatched (EmailVerificationManager env_one_valid) ''a@x.com'')
    = [PBool True, PBool False, PBool False, PNone]"
  by code_simp

theorem aggregate_one_valid_of_four_witness:
  "\<not> given None
   \<and> map (reported ''is_valid'')
        (dispatched (EmailVerificationManager env_one_valid) ''a@x.com'')
      = [PBool True, PBool False, PBool False, PNone]
   \<and> (\<exists>agg. fst (verify_email env_one_valid (EmailVerificationManager env_one_valid)
                     ''a@x.com'' None w0) = Inr agg
          \<and> map_of agg ''is_valid'' = Some (PBool False))"
proof -
  have g: "\<not> given None" by (simp add: given_def)
  have m: "mset (map (reported ''is_valid'')
                  (dispatched (EmailVerificationManager env_one_valid) ''a@x.com''))
            = {#PBool True, PBool False, PBool False, PNone#}"
    by (simp only: one_valid_reports) simp
  from aggregate_one_valid_of_four [OF g m, of env_one_valid w0] g one_valid_reports
  show ?thesis by blast
qed

theorem aggregate_one_valid_of_four_counterexample:
  "get_available_services (EmailVerificationManager env_one_valid)
      = [''zerobounce'', ''mailboxlayer'', ''neutrinoapi'', ''spokeo'']
   \<and> map (reported ''is_valid'')
        (dispatched (EmailVerificationManager env_one_valid) ''a@x.com'')
      = [PBool True, PBool False, PBool False, PNone]
   \<and> map_of (projr (fst (verify_email env_one_valid (EmailVerificationManager env_one_valid)
                            ''a@x.com'' None w0))) ''is_valid'' = Some (PBool False)
   \<and> PBool False \<noteq> PNone"
  by code_simp

subsection \<open>One entry per dispatched adapter\<close>

lemma map_of_keyed:
  assumes "distinct (map k xs)" and "x \<in> set xs"
  shows "map_of (map (\<lambda>x. (k x, g x)) xs) (k x) = Some (g x)"
  using assms by (induction xs) (auto simp: image_iff)

lemma set_arrived: "set (arrived E w services email) = set (dispatched services email)"
  using mset_arrived [of E w services email] by (rule mset_eq_setD)

lemma length_arrived:
  "length (arrived E w services email) = length (get_available_services services)"
  using mset_eq_length [OF mset_arrived [of E w services email]] by (simp add: length_dispatched)

text \<open>
  C5. In an aggregate call with \<open>N\<close> enabled adapters, whatever each dispatched task
  does (in particular when exactly one of them raises), the \<^verbatim>\<open>results\<close> mapping has
  exactly \<open>N\<close> entries, one for each dispatched adapter, and \<^verbatim>\<open>verified_by\<close> is
  \<open>N\<close>. The entry of an adapter depends on its own task alone: for a task that raised
  \<open>e\<close> it is the dictionary with the address, \<^verbatim>\<open>error\<close> = \<^verbatim>\<open>str(e)\<close> and the
  adapter's name as \<^verbatim>\<open>provider\<close>; for a task that returned a result whose score is
  absent or a number it is that result.
\<close>

theorem aggregate_entry_per_adapter:
  assumes "distinct (map fst services)"
    and "\<not> given service_name"
    and "get_available_services services \<noteq> []"
  shows "\<exists>agg res. fst (verify_email E services email service_name w) = Inr agg
    \<and> map_of agg ''results'' = Some (PDict res)
    \<and> length res = length (get_available_services services)
    \<and> mset (map fst res) = mset (get_available_services services)
    \<and> map_of agg ''verified_by'' = Some (PInt (int (length (get_available_services services))))
    \<and> (\<forall>f\<in>set (dispatched services email). map_of res (snd f) = Some (entry_of E email f))
    \<and> (\<forall>f\<in>set (dispatched services email). \<forall>e. fst f = Inl e \<longrightarrow>
          map_of res (snd f) =
            Some (PDict [(''email'', PStr email), (''error'', PStr (str_exc E e)),
                         (''provider'', PStr (snd f))]))
    \<and> (\<forall>f\<in>set (dispatched services email). \<forall>r. fst f = Inr r
          \<and> (dict_get r ''score'' PNone = PNone \<or> to_float (dict_get r ''score'' PNone) \<noteq> None)
          \<longrightarrow> map_of res (snd f) = Some (PDict r))"
proof -
  let ?fs = "arrived E w services email"
  let ?res = "map (\<lambda>f. (snd f, entry_of E email f)) ?fs"
  have d: "distinct (map snd ?fs)" by (rule distinct_arrived [OF assms(1)])
  have e: "\<forall>f\<in>set (dispatched services email). map_of ?res (snd f) = Some (entry_of E email f)"
  proof
    fix f assume "f \<in> set (dispatched services email)"
    then have "f \<in> set ?fs" by (simp add: set_arrived)
    then show "map_of ?res (snd f) = Some (entry_of E email f)"
      by (rule map_of_keyed [OF d])
  qed
  have "mset (map fst ?res) = mset (map snd (dispatched services email))"
    by (simp add: comp_def mset_arrived)
  then have m: "mset (map fst ?res) = mset (get_available_services services)"
    by (simp add: snd_dispatched)
  define agg where "agg =
      [(''email'', PStr email),
       (''is_valid'',
          if valid_votes ?fs = 0 then PNone
          else PBool (real (length (get_available_services services)) / 2
                       \<le> real (valid_votes ?fs))),
       (''score'',
          if counted_scores ?fs = [] then PNone
          else PFloat (sum_list (counted_scores ?fs) / real (length (counted_scores ?fs)))),
       (''results'', PDict ?res),
       (''verified_by'', PInt (int (length ?res))),
       (''verification_date'', PStr (utcnow E (calls w)))]"
  have 1: "fst (verify_email E services email service_name w) = Inr agg"
    by (simp add: agg_def verify_email_aggregate [OF assms(2,3)] aggregate_results [OF assms(1)])
  have 2: "map_of agg ''results'' = Some (PDict ?res)"
    by (simp add: agg_def)
  have 3: "length ?res = length (get_available_services services)"
    by (simp add: length_arrived)
  have 4: "map_of agg ''verified_by'' = Some (PInt (int (length (get_available_services services))))"
    by (simp add: agg_def length_arrived)
  have 5: "\<forall>f\<in>set (dispatched services email). \<forall>e. fst f = Inl e \<longrightarrow>
          map_of ?res (snd f) =
            Some (PDict [(''email'', PStr email), (''error'', PStr (str_exc E e)),
                         (''provider'', PStr (snd f))])"
    using e by (simp add: entry_of_def error_entry_def)
  have 6: "\<forall>f\<in>set (dispatched services email). \<forall>r. fst f = Inr r
          \<and> (dict_get r ''score'' PNone = PNone \<or> to_float (dict_get r ''score'' PNone) \<noteq> None)
          \<longrightarrow> map_of ?res (snd f) = Some (PDict r)"
    using e by (auto simp: entry_of_def reported_def score_value_def)
  from 1 2 3 m 4 e 5 6 show ?thesis by blast
qed

lemma stub_available:
  "get_available_services stub_services = [''zerobounce'', ''mailboxlayer'', ''neutrinoapi'']"
  by code_simp

lemma stub_dispatched:
  "(Inl (RequestException ''worker crashed''), ''mailboxlayer'')
     \<in> set (dispatched stub_services ''a@x.com'')"
  by code_simp

theorem aggregate_entry_per_adapter_witness:
  "distinct (map fst stub_services)
   \<and> \<not> given None
   \<and> get_available_services stub_services = [''zerobounce'', ''mailboxlayer'', ''neutrinoapi'']
   \<and> (\<exists>agg res. fst (verify_email env_stub stub_services ''a@x.com'' None w0) = Inr agg
         \<and> map_of agg ''results'' = Some (PDict res)
         \<and> length res = 3
         \<and> map_of agg ''verified_by'' = Some (PInt 3)
         \<and> map_of res ''mailboxlayer'' =
             Some (PDict [(''email'', PStr ''a@x.com''), (''error'', PStr ''failure''),
                          (''provider'', PStr ''mailboxlayer'')]))"
proof -
  have d: "distinct (map fst stub_services)" by code_simp
  have g: "\<not> given None" by (simp add: given_def)
  have a: "get_available_services stub_services \<noteq> []" by (simp add: stub_available)
  have s: "str_exc env_stub (RequestException ''worker crashed'') = ''failure''"
    by (simp add: env_stub_def)
  from aggregate_entry_per_adapter [OF d g a, of env_stub "''a@x.com''" w0]
  obtain agg res where
    1: "fst (verify_email env_stub stub_services ''a@x.com'' None w0) = Inr agg" and
    2: "map_of agg ''results'' = Some (PDict res)" and
    3: "length res = length (get_available_services stub_services)" and
    4: "map_of agg ''verified_by'' =
          Some (PInt (int (length (get_available_services stub_services))))" and
    5: "\<forall>f\<in>set (dispatched stub_services ''a@x.com''). \<forall>e. fst f = Inl e \<longrightarrow>
          map_of res (snd f) =
            Some (PDict [(''email'', PStr ''a@x.com''), (''error'', PStr (str_exc env_stub e)),
                         (''provider'', PStr (snd f))])"
    by blast
  from 5 stub_dispatched
  have 6: "map_of res ''mailboxlayer'' =
      Some (PDict [(''email'', PStr ''a@x.com''), (''error'', PStr ''failure''),
                   (''provider'', PStr ''mailboxlayer'')])"
    using s by fastforce
  from 3 have 7: "length res = 3" by (simp add: stub_available)
  from 4 have 8: "map_of agg ''verified_by'' = Some (PInt 3)" by (simp add: stub_available)
  from d g stub_available 1 2 7 8 6 show ?thesis by blast
qed

subsection \<open>What an aggregate call writes to the table\<close>

lemma store_rows:
  "\<exists>new. rows (store_verification_result E r w) = rows w @ new
     \<and> set new \<subseteq> {row_of r} \<and> length new \<le> 1"
  by (simp add: store_verification_result_def row_of_def Let_def)

lemma fold_store_rows:
  "\<exists>new. rows (fold (store_verification_result E) rs w) = rows w @ new
     \<and> set new \<subseteq> row_of ` set rs \<and> length new \<le> length rs"
proof (induction rs arbitrary: w)
  case Nil
  then show ?case by simp
next
  case (Cons r rs)
  obtain n1 where 1: "rows (store_verification_result E r w) = rows w @ n1"
    "set n1 \<subseteq> {row_of r}" "length n1 \<le> 1"
    using store_rows [of E r w] by blast
  obtain n2 where 2:
    "rows (fold (store_verification_result E) rs (store_verification_result E r w))
      = rows (store_verification_result E r w) @ n2"
    "set n2 \<subseteq> row_of ` set rs" "length n2 \<le> length rs"
    using Cons.IH [of "store_verification_result E r w"] by blast
  have "rows (fold (store_verification_result E) (r # rs) w) = rows w @ (n1 @ n2)"
    using 1(1) 2(1) by simp
  moreover have "set (n1 @ n2) \<subseteq> row_of ` set (r # rs)" using 1(2) 2(2) by auto
  moreover have "length (n1 @ n2) \<le> length (r # rs)" using 1(3) 2(3) by simp
  ultimately show ?case by blast
qed

lemma set_returned_arrived:
  "set (concat (map returned (arrived E w services email)))
    = (\<Union>f\<in>set (dispatched services email). set (returned f))"
  by (simp add: set_arrived)

lemma length_returned_mset:
  assumes "mset fs = mset gs"
  shows "length (concat (map returned fs)) = length (concat (map returned gs))"
proof -
  have "length (concat (map returned fs)) = sum_list (map (\<lambda>f. length (returned f)) fs)" for fs
    by (simp add: length_concat comp_def)
  moreover have "sum_list (map (\<lambda>f. length (returned f)) fs)
      = sum_list (map (\<lambda>f. length (returned f)) gs)"
  proof -
    have "mset (map (\<lambda>f. length (returned f)) fs) = mset (map (\<lambda>f. length (returned f)) gs)"
      using assms by simp
    then have "sum_mset (mset (map (\<lambda>f. length (returned f)) fs))
        = sum_mset (mset (map (\<lambda>f. length (returned f)) gs))"
      by (rule arg_cong)
    then show ?thesis by (simp only: sum_mset_sum_list)
  qed
  ultimately show ?thesis by simp
qed

text \<open>
  C10. In an aggregate call, the entry that the dispatch loop makes for a task that
  raised is part of the \<^verbatim>\<open>results\<close> mapping and is counted in \<^verbatim>\<open>verified_by\<close>, but
  it is not stored: the call changes the table exactly as storing, in order of
  completion, the results that the tasks returned. Every new row is therefore the row of
  a returned result, and there are at most as many new rows as tasks that returned.
\<close>

theorem aggregate_stores_returned_results_only:
  assumes "distinct (map fst services)"
    and "\<not> given service_name"
    and "get_available_services services \<noteq> []"
  shows "(\<exists>agg res. fst (verify_email E services email service_name w) = Inr agg
      \<and> map_of agg ''results'' = Some (PDict res)
      \<and> map_of agg ''verified_by'' = Some (PInt (int (length res)))
      \<and> length res = length (dispatched services email)
      \<and> (\<forall>f\<in>set (dispatched services email). \<forall>e. fst f = Inl e \<longrightarrow>
            returned f = [] \<and> map_of res (snd f) = Some (error_entry E email (snd f) e)))
    \<and> snd (verify_email E services email service_name w) =
        (fold (store_verification_result E)
           (concat (map returned (arrived E w services email))) w)\<lparr>calls := Suc (calls w)\<rparr>
    \<and> (\<exists>new. rows (snd (verify_email E services email service_name w)) = rows w @ new
          \<and> set new \<subseteq> row_of ` (\<Union>f\<in>set (dispatched services email). set (returned f))
          \<and> length new \<le> length (concat (map returned (dispatched services email))))"
proof (intro conjI)
  let ?fs = "arrived E w services email"
  let ?res = "map (\<lambda>f. (snd f, entry_of E email f)) ?fs"
  have d: "distinct (map snd ?fs)" by (rule distinct_arrived [OF assms(1)])
  define agg where "agg =
      [(''email'', PStr email),
       (''is_valid'',
          if valid_votes ?fs = 0 then PNone
          else PBool (real (length (get_available_services services)) / 2
                       \<le> real (valid_votes ?fs))),
       (''score'',
          if counted_scores ?fs = [] then PNone
          else PFloat (sum_list (counted_scores ?fs) / real (length (counted_scores ?fs)))),
       (''results'', PDict ?res),
       (''verified_by'', PInt (int (length ?res))),
       (''verification_date'', PStr (utcnow E (calls w)))]"
  have 1: "fst (verify_email E services email service_name w) = Inr agg"
    by (simp add: agg_def verify_email_aggregate [OF assms(2,3)] aggregate_results [OF assms(1)])
  have 2: "map_of agg ''results'' = Some (PDict ?res)"
    by (simp add: agg_def)
  have 3: "map_of agg ''verified_by'' = Some (PInt (int (length ?res)))"
    by (simp add: agg_def)
  have 4: "length ?res = length (dispatched services email)"
    by (simp add: length_arrived length_dispatched)
  have 5: "\<forall>f\<in>set (dispatched services email). \<forall>e. fst f = Inl e \<longrightarrow>
            returned f = [] \<and> map_of ?res (snd f) = Some (error_entry E email (snd f) e)"
  proof (intro ballI allI impI)
    fix f e assume f: "f \<in> set (dispatched services email)" and e: "fst f = Inl e"
    from f have "f \<in> set ?fs" by (simp add: set_arrived)
    then have "map_of ?res (snd f) = Some (entry_of E email f)"
      by (rule map_of_keyed [OF d])
    with e show "returned f = [] \<and> map_of ?res (snd f) = Some (error_entry E email (snd f) e)"
      by (simp add: entry_of_def returned_def)
  qed
  from 1 2 3 4 5
  show "\<exists>agg res. fst (verify_email E services email service_name w) = Inr agg
      \<and> map_of agg ''results'' = Some (PDict res)
      \<and> map_of agg ''verified_by'' = Some (PInt (int (length res)))
      \<and> length res = length (dispatched services email)
      \<and> (\<forall>f\<in>set (dispatched services email). \<forall>e. fst f = Inl e \<longrightarrow>
            returned f = [] \<and> map_of res (snd f) = Some (error_entry E email (snd f) e))"
    by (intro exI [of _ agg] exI [of _ ?res] conjI)
  show w': "snd (verify_email E services email service_name w) =
        (fold (store_verification_result E) (concat (map returned ?fs)) w)
          \<lparr>calls := Suc (calls w)\<rparr>"
    by (simp add: verify_email_aggregate [OF assms(2,3)])
  obtain new where n:
    "rows (fold (store_verification_result E) (concat (map returned ?fs)) w) = rows w @ new"
    "set new \<subseteq> row_of ` set (concat (map returned ?fs))"
    "length new \<le> length (concat (map returned ?fs))"
    using fold_store_rows [of E "concat (map returned ?fs)" w] by blast
  have "rows (snd (verify_email E services email service_name w)) = rows w @ new"
    using n(1) by (simp add: w')
  moreover have "set new \<subseteq> row_of ` (\<Union>f\<in>set (dispatched services email). set (returned f))"
    using n(2) by (simp only: set_returned_arrived)
  moreover have "length new \<le> length (concat (map returned (dispatched services email)))"
    using n(3) length_returned_mset [OF mset_arrived [of E w services email]] by simp
  ultimately
  show "\<exists>new. rows (snd (verify_email E services email service_name w)) = rows w @ new
          \<and> set new \<subseteq> row_of ` (\<Union>f\<in>set (dispatched services email). set (returned f))
          \<and> length new \<le> length (concat (map returned (dispatched services email)))"
    by blast
qed

theorem aggregate_stores_returned_results_only_witness:
  "distinct (map fst stub_services)
   \<and> \<not> given None
   \<and> get_available_services stub_services = [''zerobounce'', ''mailboxlayer'', ''neutrinoapi'']
   \<and> returned (Inl (RequestException ''worker crashed''), ''mailboxlayer'') = []
   \<and> concat (map returned (arrived env_stub w0 stub_services ''a@x.com'')) =
       [[(''email'', PStr ''a@x.com''), (''is_valid'', PBool False),
         (''score'', PFloat (1 / 2)), (''provider'', PStr ''neutrinoapi'')],
        [(''email'', PStr ''a@x.com''), (''is_valid'', PBool True),
         (''score'', PFloat 1), (''provider'', PStr ''zerobounce'')]]
   \<and> rows (snd (verify_email env_stub stub_services ''a@x.com'' None w0)) =
       [\<lparr>row_email = PStr ''a@x.com'', row_is_valid = PBool False,
         row_score = PFloat (1 / 2), row_provider = PStr ''neutrinoapi'',
         row_details = PNone\<rparr>,
        \<lparr>row_email = PStr ''a@x.com'', row_is_valid = PBool True,
         row_score = PFloat 1, row_provider = PStr ''zerobounce'',
         row_details = PNone\<rparr>]"
proof -
  have d: "distinct (map fst stub_services)" by code_simp
  have g: "\<not> given None" by (simp add: given_def)
  have a: "get_available_services stub_services \<noteq> []" by (simp add: stub_available)
  have r: "returned (Inl (RequestException ''worker crashed''), ''mailboxlayer'') = []"
    by (simp add: returned_def)
  have c: "concat (map returned (arrived env_stub w0 stub_services ''a@x.com'')) =
       [[(''email'', PStr ''a@x.com''), (''is_valid'', PBool False),
         (''score'', PFloat (1 / 2)), (''provider'', PStr ''neutrinoapi'')],
        [(''email'', PStr ''a@x.com''), (''is_valid'', PBool True),
         (''score'', PFloat 1), (''provider'', PStr ''zerobounce'')]]"
    by code_simp
  have "snd (verify_email env_stub stub_services ''a@x.com'' None w0) =
        (fold (store_verification_result env_stub)
           (concat (map returned (arrived env_stub w0 stub_services ''a@x.com''))) w0)
          \<lparr>calls := Suc (calls w0)\<rparr>"
    by (rule conjunct1 [OF conjunct2
          [OF aggregate_stores_returned_results_only [OF d g a, of env_stub "''a@x.com''" w0]]])
  then have rw: "rows (snd (verify_email env_stub stub_services ''a@x.com'' None w0)) =
       [\<lparr>row_email = PStr ''a@x.com'', row_is_valid = PBool False,
         row_score = PFloat (1 / 2), row_provider = PStr ''neutrinoapi'',
         row_details = PNone\<rparr>,
        \<lparr>row_email = PStr ''a@x.com'', row_is_valid = PBool True,
         row_score = PFloat 1, row_provider = PStr ''zerobounce'',
         row_details = PNone\<rparr>]"
    by (simp only: c)
       (simp add: store_verification_result_def env_stub_def w0_def dict_has_def dict_get_def)
  show ?thesis by (intro conjI d g stub_available r c rw)
qed

subsection \<open>Aggregate score\<close>

lemma entry_score_entry_of:
  "entry_score (entry_of E email f) = (case score_value f of None \<Rightarrow> [] | Some x \<Rightarrow> [x])"
  by (cases "fst f")
     (auto simp: entry_score_def entry_of_def error_entry_def score_value_def reported_def
        dict_get_def split: option.splits)

lemma present_scores_entries:
  "present_scores (map (\<lambda>f. (snd f, entry_of E email f)) fs) = counted_scores fs"
  by (simp add: present_scores_def counted_scores_def comp_def entry_score_entry_of)

lemma entry_of_score_is_number:
  assumes "entry_of E email f = PDict r" and "dict_get r ''score'' PNone \<noteq> PNone"
  shows "to_float (dict_get r ''score'' PNone) \<noteq> None"
  using assms
  by (cases "fst f")
     (auto simp: entry_of_def error_entry_def score_value_def reported_def dict_get_def
        split: if_splits)

text \<open>
  C6. The aggregate score of an aggregate call is the arithmetic mean of the scores
  present in its \<^verbatim>\<open>results\<close> mapping (each of them is a number), and \<open>None\<close> when
  no entry has a score: entries without a score count neither in the sum nor in the
  divisor. Scores are real numbers here, so the mean is exact.
\<close>

theorem aggregate_score_mean:
  assumes "distinct (map fst services)"
    and "\<not> given service_name"
    and "get_available_services services \<noteq> []"
  shows "\<exists>agg res. fst (verify_email E services email service_name w) = Inr agg
    \<and> map_of agg ''results'' = Some (PDict res)
    \<and> (\<forall>p\<in>set res. \<forall>r. snd p = PDict r \<and> dict_get r ''score'' PNone \<noteq> PNone
          \<longrightarrow> to_float (dict_get r ''score'' PNone) \<noteq> None)
    \<and> map_of agg ''score'' =
        Some (if present_scores res = [] then PNone
              else PFloat (sum_list (present_scores res) / real (length (present_scores res))))"
proof -
  let ?fs = "arrived E w services email"
  let ?res = "map (\<lambda>f. (snd f, entry_of E email f)) ?fs"
  define agg where "agg =
      [(''email'', PStr email),
       (''is_valid'',
          if valid_votes ?fs = 0 then PNone
          else PBool (real (length (get_available_services services)) / 2
                       \<le> real (valid_votes ?fs))),
       (''score'',
          if counted_scores ?fs = [] then PNone
          else PFloat (sum_list (counted_scores ?fs) / real (length (counted_scores ?fs)))),
       (''results'', PDict ?res),
       (''verified_by'', PInt (int (length ?res))),
       (''verification_date'', PStr (utcnow E (calls w)))]"
  have 1: "fst (verify_email E services email service_name w) = Inr agg"
    by (simp add: agg_def verify_email_aggregate [OF assms(2,3)] aggregate_results [OF assms(1)])
  have 2: "map_of agg ''results'' = Some (PDict ?res)"
    by (simp add: agg_def)
  have 3: "\<forall>p\<in>set ?res. \<forall>r. snd p = PDict r \<and> dict_get r ''score'' PNone \<noteq> PNone
          \<longrightarrow> to_float (dict_get r ''score'' PNone) \<noteq> None"
    using entry_of_score_is_number by auto
  have 4: "map_of agg ''score'' =
        Some (if present_scores ?res = [] then PNone
              else PFloat (sum_list (present_scores ?res) / real (length (present_scores ?res))))"
    by (simp add: agg_def present_scores_entries)
  show ?thesis using 1 2 3 4 by (intro exI [of _ agg] exI [of _ ?res] conjI)
qed

lemma scores_available:
  "get_available_services (EmailVerificationManager env_scores)
    = [''zerobounce'', ''mailboxlayer'', ''spokeo'', ''hunter'']"
  by code_simp

lemma registry_distinct: "distinct (map fst (EmailVerificationManager E))"
  by (simp add: EmailVerificationManager_def Let_def)

lemma scores_results:
  "map (\<lambda>p. dict_get (case snd p of PDict r \<Rightarrow> r | _ \<Rightarrow> []) ''score'' PNone)
     (map (\<lambda>f. (snd f, entry_of env_scores ''a@x.com'' f))
        (arrived env_scores w0 (EmailVerificationManager env_scores) ''a@x.com''))
    = [PFloat (6 / 10), PNone, PNone, PFloat (8 / 10)]"
  by code_simp

theorem aggregate_score_mean_witness:
  "distinct (map fst (EmailVerificationManager env_scores))
   \<and> \<not> given None
   \<and> get_available_services (EmailVerificationManager env_scores)
       = [''zerobounce'', ''mailboxlayer'', ''spokeo'', ''hunter'']
   \<and> (\<exists>agg res. fst (verify_email env_scores (EmailVerificationManager env_scores)
                         ''a@x.com'' None w0) = Inr agg
         \<and> map_of agg ''results'' = Some (PDict res)
         \<and> map (\<lambda>p. dict_get (case snd p of PDict r \<Rightarrow> r | _ \<Rightarrow> []) ''score'' PNone) res
             = [PFloat (6 / 10), PNone, PNone, PFloat (8 / 10)]
         \<and> map_of agg ''score'' = Some (PFloat (7 / 10)))"
proof -
  have g: "\<not> given None" by (simp add: given_def)
  have a: "get_available_services (EmailVerificationManager env_scores) \<noteq> []"
    by (simp add: scores_available)
  from aggregate_score_mean [OF registry_distinct g a, of env_scores "''a@x.com''" w0]
  obtain agg res where
    1: "fst (verify_email env_scores (EmailVerificationManager env_scores)
              ''a@x.com'' None w0) = Inr agg" and
    2: "map_of agg ''results'' = Some (PDict res)" and
    4: "map_of agg ''score'' =
        Some (if present_scores res = [] then PNone
              else PFloat (sum_list (present_scores res) / real (length (present_scores res))))"
    by blast
  have "fst (verify_email env_scores (EmailVerificationManager env_scores) ''a@x.com'' None w0)
      = Inr [(''email'', PStr ''a@x.com''),
          (''is_valid'',
             if valid_votes (arrived env_scores w0 (EmailVerificationManager env_scores) ''a@x.com'') = 0 then PNone
             else PBool (real (length (get_available_services (EmailVerificationManager env_scores))) / 2
                          \<le> real (valid_votes (arrived env_scores w0 (EmailVerificationManager env_scores) ''a@x.com'')))),
          (''score'',
             if counted_scores (arrived env_scores w0 (EmailVerificationManager env_scores) ''a@x.com'') = [] then PNone
             else PFloat (sum_list (counted_scores (arrived env_scores w0 (EmailVerificationManager env_scores) ''a@x.com''))
                            / real (length (counted_scores (arrived env_scores w0 (EmailVerificationManager env_scores) ''a@x.com''))))),
          (''results'',
             PDict (map (\<lambda>f. (snd f, entry_of env_scores ''a@x.com'' f))
                      (arrived env_scores w0 (EmailVerificationManager env_scores) ''a@x.com''))),
          (''verified_by'',
             PInt (int (length (map (\<lambda>f. (snd f, entry_of env_scores ''a@x.com'' f))
                      (arrived env_scores w0 (EmailVerificationManager env_scores) ''a@x.com''))))),
          (''verification_date'', PStr (utcnow env_scores (calls w0)))]"
    by (simp add: verify_email_aggregate [OF g a] aggregate_results [OF registry_distinct])
  with 1 2 have r: "res = map (\<lambda>f. (snd f, entry_of env_scores ''a@x.com'' f))
      (arrived env_scores w0 (EmailVerificationManager env_scores) ''a@x.com'')"
    by auto
  have p: "present_scores res = [6 / 10, 8 / 10]"
    unfolding r by code_simp
  have 5: "map_of agg ''score'' = Some (PFloat (7 / 10))"
    using 4 by (simp add: p)
  have 6: "map (\<lambda>p. dict_get (case snd p of PDict r \<Rightarrow> r | _ \<Rightarrow> []) ''score'' PNone) res
             = [PFloat (6 / 10), PNone, PNone, PFloat (8 / 10)]"
    unfolding r by (rule scores_results)
  from 1 2 6 5
  have "\<exists>agg res. fst (verify_email env_scores (EmailVerificationManager env_scores)
                         ''a@x.com'' None w0) = Inr agg
         \<and> map_of agg ''results'' = Some (PDict res)
         \<and> map (\<lambda>p. dict_get (case snd p of PDict r \<Rightarrow> r | _ \<Rightarrow> []) ''score'' PNone) res
             = [PFloat (6 / 10), PNone, PNone, PFloat (8 / 10)]
         \<and> map_of agg ''score'' = Some (PFloat (7 / 10))"
    by (intro exI [of _ agg] exI [of _ res] conjI)
  then show ?thesis by (intro conjI registry_distinct g scores_available)
qed

subsection \<open>A named provider without a credential\<close>

lemma registry_names:
  "map fst (EmailVerificationManager E)
    = [''zerobounce'', ''mailboxlayer'', ''neutrinoapi'', ''spokeo'', ''hunter'']"
  by (simp add: EmailVerificationManager_def Let_def)

lemma store_missing_credential:
  "store_verification_result E
     [(''email'', PStr email), (''is_valid'', PNone), (''error'', PStr msg),
      (''provider'', PStr name)] w =
   (if commit_fails E (commits w)
         \<lparr>row_email = PStr email, row_is_valid = PNone, row_score = PNone,
          row_provider = PStr name, row_details = PNone\<rparr>
    then w\<lparr>commits := Suc (commits w)\<rparr>
    else w\<lparr>rows := rows w @ [\<lparr>row_email = PStr email, row_is_valid = PNone, row_score = PNone,
                               row_provider = PStr name, row_details = PNone\<rparr>],
           commits := Suc (commits w)\<rparr>)"
  by (simp add: store_verification_result_def dict_has_def dict_get_def)

text \<open>
  C9 (amended). For every address and every provider name of the registry whose
  adapter is not enabled (its \<^verbatim>\<open>api_key\<close> is not configured), \<^verbatim>\<open>verify_email\<close> with that
  name still calls the adapter, returns the adapter's result for a missing credential
  (\<^verbatim>\<open>is_valid\<close> \<open>None\<close>, \<^verbatim>\<open>error\<close> "API key not provided", or "API credentials
  not provided" for \<open>neutrinoapi\<close>) and stores it: one insertion is attempted, which
  adds exactly one row with \<^verbatim>\<open>is_valid\<close> \<open>None\<close> unless the insertion itself fails.
\<close>

theorem verify_email_named_without_credential:
  assumes "name \<in> set (map fst (EmailVerificationManager E))"
    and "name \<notin> set (get_available_services (EmailVerificationManager E))"
  shows "verify_email E (EmailVerificationManager E) email (Some name) w =
      (Inr [(''email'', PStr email), (''is_valid'', PNone),
            (''error'', PStr (if name = ''neutrinoapi'' then ''API credentials not provided''
                              else ''API key not provided'')),
            (''provider'', PStr name)],
       if commit_fails E (commits w)
            \<lparr>row_email = PStr email, row_is_valid = PNone, row_score = PNone,
             row_provider = PStr name, row_details = PNone\<rparr>
       then w\<lparr>commits := Suc (commits w)\<rparr>
       else w\<lparr>rows := rows w @ [\<lparr>row_email = PStr email, row_is_valid = PNone,
                                  row_score = PNone, row_provider = PStr name,
                                  row_details = PNone\<rparr>],
              commits := Suc (commits w)\<rparr>)"
proof -
  from assms(1) have "name = ''zerobounce'' \<or> name = ''mailboxlayer''
    \<or> name = ''neutrinoapi'' \<or> name = ''spokeo'' \<or> name = ''hunter''"
    unfolding registry_names by (simp only: list.set insert_iff empty_iff simp_thms)
  then show ?thesis
  proof (elim disjE)
    assume 1: "name = ''zerobounce''"
    with assms(2) have "\<not> given (ZeroBounceService E None)"
      by (auto simp: get_available_services_def EmailVerificationManager_def Let_def
          split: if_splits)
    with 1 show ?thesis
      by (simp add: verify_email_def EmailVerificationManager_def Let_def given_def text_of_def
          zerobounce_verify_email_def store_missing_credential)
  next
    assume 2: "name = ''mailboxlayer''"
    with assms(2) have "\<not> given (MailboxLayerService E None)"
      by (auto simp: get_available_services_def EmailVerificationManager_def Let_def
          split: if_splits)
    with 2 show ?thesis
      by (simp add: verify_email_def EmailVerificationManager_def Let_def given_def text_of_def
          mailboxlayer_verify_email_def store_missing_credential)
  next
    assume 3: "name = ''neutrinoapi''"
    with assms(2) have "\<not> given (snd (NeutrinoAPIService E None None))"
      by (auto simp: get_available_services_def EmailVerificationManager_def Let_def
          split: if_splits)
    with 3 show ?thesis
      by (simp add: verify_email_def EmailVerificationManager_def Let_def given_def text_of_def
          neutrinoapi_verify_email_def store_missing_credential)
  next
    assume 4: "name = ''spokeo''"
    with assms(2) have "\<not> given (SpokeoService E None)"
      by (auto simp: get_available_services_def EmailVerificationManager_def Let_def
          split: if_splits)
    with 4 show ?thesis
      by (simp add: verify_email_def EmailVerificationManager_def Let_def given_def text_of_def
          spokeo_verify_email_def store_missing_credential)
  next
    assume 5: "name = ''hunter''"
    with assms(2) have "\<not> given (HunterService E None)"
      by (auto simp: get_available_services_def EmailVerificationManager_def Let_def
          split: if_splits)
    with 5 show ?thesis
      by (simp add: verify_email_def EmailVerificationManager_def Let_def given_def text_of_def
          hunter_verify_email_def store_missing_credential)
  qed
qed

theorem verify_email_named_without_credential_witness:
  "''zerobounce'' \<in> set (map fst (EmailVerificationManager env_no_keys))
   \<and> ''zerobounce'' \<notin> set (get_available_services (EmailVerificationManager env_no_keys))
   \<and> verify_email env_no_keys (EmailVerificationManager env_no_keys) ''a@x.com''
        (Some ''zerobounce'') w0 =
      (Inr [(''email'', PStr ''a@x.com''), (''is_valid'', PNone),
            (''error'', PStr ''API key not provided''), (''provider'', PStr ''zerobounce'')],
       \<lparr>rows = [\<lparr>row_email = PStr ''a@x.com'', row_is_valid = PNone, row_score = PNone,
                  row_provider = PStr ''zerobounce'', row_details = PNone\<rparr>],
        commits = 1, calls = 0\<rparr>)"
proof -
  have m: "''zerobounce'' \<in> set (map fst (EmailVerificationManager env_no_keys))"
    by (simp add: registry_names)
  have n: "''zerobounce'' \<notin> set (get_available_services (EmailVerificationManager env_no_keys))"
    by (simp add: no_keys_available)
  have c: "\<not> commit_fails env_no_keys k r" for k r by (simp add: env_no_keys_def)
  have "verify_email env_no_keys (EmailVerificationManager env_no_keys) ''a@x.com''
        (Some ''zerobounce'') w0 =
      (Inr [(''email'', PStr ''a@x.com''), (''is_valid'', PNone),
            (''error'', PStr ''API key not provided''), (''provider'', PStr ''zerobounce'')],
       \<lparr>rows = [\<lparr>row_email = PStr ''a@x.com'', row_is_valid = PNone, row_score = PNone,
                  row_provider = PStr ''zerobounce'', row_details = PNone\<rparr>],
        commits = 1, calls = 0\<rparr>)"
    using verify_email_named_without_credential [OF m n, of "''a@x.com''" w0]
    by (simp add: c w0_def)
  then show ?thesis by (intro conjI m n)
qed

theorem verify_email_named_without_credential_counterexample:
  "''neutrinoapi'' \<in> set (map fst (EmailVerificationManager env_no_keys))
   \<and> get_available_services (EmailVerificationManager env_no_keys) = []
   \<and> verify_email env_no_keys (EmailVerificationManager env_no_keys) ''a@x.com''
        (Some ''neutrinoapi'') w0 =
      (Inr [(''email'', PStr ''a@x.com''), (''is_valid'', PNone),
            (''error'', PStr ''API credentials not provided''),
            (''provider'', PStr ''neutrinoapi'')],
       \<lparr>rows = [\<lparr>row_email = PStr ''a@x.com'', row_is_valid = PNone, row_score = PNone,
                  row_provider = PStr ''neutrinoapi'', row_details = PNone\<rparr>],
        commits = 1, calls = 0\<rparr>)
   \<and> PStr ''API credentials not provided'' \<noteq> PStr ''API key not provided''"
  by code_simp

subsection \<open>Bulk verification\<close>

text \<open>Every result of the five adapters carries the address and the adapter's name.\<close>

lemma zerobounce_result_keys:
  "map_of (fst (zerobounce_verify_email E k email)) ''email'' = Some (PStr email)
   \<and> map_of (fst (zerobounce_verify_email E k email)) ''provider'' = Some (PStr ''zerobounce'')"
  by (simp add: zerobounce_verify_email_def Let_def split: sum.splits pyval.splits)

lemma mailboxlayer_result_keys:
  "map_of (fst (mailboxlayer_verify_email E k email)) ''email'' = Some (PStr email)
   \<and> map_of (fst (mailboxlayer_verify_email E k email)) ''provider''
       = Some (PStr ''mailboxlayer'')"
  by (simp add: mailboxlayer_verify_email_def Let_def
      split: sum.splits pyval.splits option.splits)

lemma neutrinoapi_result_keys:
  "map_of (fst (neutrinoapi_verify_email E k email)) ''email'' = Some (PStr email)
   \<and> map_of (fst (neutrinoapi_verify_email E k email)) ''provider''
       = Some (PStr ''neutrinoapi'')"
  by (simp add: neutrinoapi_verify_email_def Let_def split: sum.splits pyval.splits)

lemma spokeo_result_keys:
  "map_of (fst (spokeo_verify_email E k email)) ''email'' = Some (PStr email)
   \<and> map_of (fst (spokeo_verify_email E k email)) ''provider'' = Some (PStr ''spokeo'')"
  by (simp add: spokeo_verify_email_def Let_def split: sum.splits)

lemma hunter_result_keys:
  "map_of (fst (hunter_verify_email E k email)) ''email'' = Some (PStr email)
   \<and> map_of (fst (hunter_verify_email E k email)) ''provider'' = Some (PStr ''hunter'')"
  by (simp add: hunter_verify_email_def Let_def split: sum.splits pyval.splits)

lemma registry_submit:
  assumes "name \<in> set (map fst (EmailVerificationManager E))"
  shows "\<exists>r. submit (EmailVerificationManager E) name email = Inr r
    \<and> map_of r ''email'' = Some (PStr email) \<and> map_of r ''provider'' = Some (PStr name)"
proof -
  from assms have "name = ''zerobounce'' \<or> name = ''mailboxlayer''
    \<or> name = ''neutrinoapi'' \<or> name = ''spokeo'' \<or> name = ''hunter''"
    unfolding registry_names by (simp only: list.set insert_iff empty_iff simp_thms)
  then show ?thesis
  proof (elim disjE)
    assume "name = ''zerobounce''"
    then show ?thesis
      by (simp add: submit_def EmailVerificationManager_def Let_def zerobounce_result_keys)
  next
    assume "name = ''mailboxlayer''"
    then show ?thesis
      by (simp add: submit_def EmailVerificationManager_def Let_def mailboxlayer_result_keys)
  next
    assume "name = ''neutrinoapi''"
    then show ?thesis
      by (simp add: submit_def EmailVerificationManager_def Let_def neutrinoapi_result_keys)
  next
    assume "name = ''spokeo''"
    then show ?thesis
      by (simp add: submit_def EmailVerificationManager_def Let_def spokeo_result_keys)
  next
    assume "name = ''hunter''"
    then show ?thesis
      by (simp add: submit_def EmailVerificationManager_def Let_def hunter_result_keys)
  qed
qed

lemma available_in_registry:
  "name \<in> set (get_available_services services) \<Longrightarrow> name \<in> set (map fst services)"
  by (auto simp: get_available_services_def)

lemma as_completed_single: "as_completed ks [x] = [x]"
  by (cases ks) simp_all

lemma store_accepted:
  assumes "\<not> commit_fails E (commits w) (row_of r)" and "map_of r ''email'' = Some v"
  shows "store_verification_result E r w
    = w\<lparr>rows := rows w @ [row_of r], commits := Suc (commits w)\<rparr>"
proof -
  from assms(2) have "r \<noteq> []" by auto
  with assms show ?thesis
    by (simp add: store_verification_result_def dict_has_def row_of_def Let_def)
qed

text \<open>An aggregate call when one adapter is enabled and insertions succeed.\<close>

lemma verify_email_single_adapter:
  assumes "get_available_services services = [name]"
    and "\<forall>k r. \<not> commit_fails E k r"
    and "submit services name email = Inr r"
    and "map_of r ''email'' = Some (PStr email)"
    and "map_of r ''provider'' = Some (PStr name)"
  shows "\<exists>agg w1. verify_email E services email None w = (Inr agg, w1)
    \<and> map_of agg ''email'' = Some (PStr email)
    \<and> rows w1 = rows w @ [row_of r]
    \<and> row_email (row_of r) = PStr email \<and> row_provider (row_of r) = PStr name"
proof -
  have g: "\<not> given None" by (simp add: given_def)
  have a: "get_available_services services \<noteq> []" using assms(1) by simp
  have fs: "arrived E w services email = [(Inr r, name)]"
    by (simp add: arrived_def dispatched_def assms(1,3) as_completed_single)
  have c: "\<not> commit_fails E (commits w) (row_of r)" using assms(2) by simp
  have "rows (snd (verify_email E services email None w)) = rows w @ [row_of r]"
    by (simp add: verify_email_aggregate [OF g a] fs returned_def store_accepted [OF c assms(4)])
  moreover have "map_of (projr (fst (verify_email E services email None w))) ''email''
      = Some (PStr email)"
    by (simp add: verify_email_aggregate [OF g a])
  moreover have "fst (verify_email E services email None w)
      = Inr (projr (fst (verify_email E services email None w)))"
    by (simp add: verify_email_aggregate [OF g a])
  moreover have "row_email (row_of r) = PStr email \<and> row_provider (row_of r) = PStr name"
    using assms(4,5) by (simp add: row_of_def dict_get_def)
  ultimately show ?thesis
    by (intro exI [of _ "projr (fst (verify_email E services email None w))"]
        exI [of _ "snd (verify_email E services email None w)"]) (simp add: prod_eq_iff)
qed

lemma each_verify_email_single_adapter:
  assumes "get_available_services services = [name]"
    and "\<forall>k r. \<not> commit_fails E k r"
    and "\<forall>email. \<exists>r. submit services name email = Inr r
          \<and> map_of r ''email'' = Some (PStr email) \<and> map_of r ''provider'' = Some (PStr name)"
  shows "\<exists>rs w1. each_verify_email E services emails w = (Inr rs, w1)
    \<and> map email_of rs = map PStr emails
    \<and> (\<exists>new. rows w1 = rows w @ new
          \<and> map row_email new = map PStr emails
          \<and> map row_provider new = map (\<lambda>email. PStr name) emails)"
proof (induction emails arbitrary: w)
  case Nil
  then show ?case by simp
next
  case (Cons email emails)
  from assms(3) obtain r where r: "submit services name email = Inr r"
    "map_of r ''email'' = Some (PStr email)" "map_of r ''provider'' = Some (PStr name)"
    by blast
  from verify_email_single_adapter [OF assms(1,2) r, of w]
  obtain agg w1 where 1: "verify_email E services email None w = (Inr agg, w1)"
    "map_of agg ''email'' = Some (PStr email)" "rows w1 = rows w @ [row_of r]"
    "row_email (row_of r) = PStr email" "row_provider (row_of r) = PStr name"
    by blast
  from Cons.IH [of w1]
  obtain rs w2 new where 2: "each_verify_email E services emails w1 = (Inr rs, w2)"
    "map email_of rs = map PStr emails" "rows w2 = rows w1 @ new"
    "map row_email new = map PStr emails"
    "map row_provider new = map (\<lambda>email. PStr name) emails"
    by blast
  have "each_verify_email E services (email # emails) w = (Inr (PDict agg # rs), w2)"
    using 1(1) 2(1) by simp
  moreover have "map email_of (PDict agg # rs) = map PStr (email # emails)"
    using 1(2) 2(2) by (simp add: email_of_def dict_get_def)
  moreover have "rows w2 = rows w @ (row_of r # new)" using 1(3) 2(3) by simp
  moreover have "map row_email (row_of r # new) = map PStr (email # emails)"
    using 1(4) 2(4) by simp
  moreover have "map row_provider (row_of r # new) = map (\<lambda>email. PStr name) (email # emails)"
    using 1(5) 2(5) by simp
  ultimately show ?case by blast
qed

text \<open>
  C8. With no provider selected and exactly one enabled adapter (and a table that
  accepts insertions), \<^verbatim>\<open>bulk_verify\<close> returns one result for each address of a
  non-empty input, in the order of the input, and adds one row for each address, in the
  same order, repeated addresses included: for \<open>["a@x.com", "a@x.com"]\<close> the output
  has length 2 and two rows are added.
\<close>

theorem bulk_verify_no_deduplication:
  assumes "get_available_services (EmailVerificationManager E) = [name]"
    and "\<forall>k r. \<not> commit_fails E k r"
    and "\<not> given service_name"
    and "emails \<noteq> []"
  shows "\<exists>rs w1. bulk_verify E (EmailVerificationManager E) emails service_name w
        = (Inr (PDict [(''results'', PList rs)]), w1)
    \<and> length rs = length emails
    \<and> map email_of rs = map PStr emails
    \<and> (\<exists>new. rows w1 = rows w @ new
          \<and> length new = length emails
          \<and> map row_email new = map PStr emails
          \<and> map row_provider new = map (\<lambda>email. PStr name) emails)"
proof -
  have "name \<in> set (map fst (EmailVerificationManager E))"
    using assms(1) available_in_registry [of name "EmailVerificationManager E"] by simp
  then have wf: "\<forall>email. \<exists>r. submit (EmailVerificationManager E) name email = Inr r
          \<and> map_of r ''email'' = Some (PStr email) \<and> map_of r ''provider'' = Some (PStr name)"
    using registry_submit by blast
  from each_verify_email_single_adapter [OF assms(1,2) wf, of emails w]
  obtain rs w1 new where 1:
    "each_verify_email E (EmailVerificationManager E) emails w = (Inr rs, w1)"
    "map email_of rs = map PStr emails" "rows w1 = rows w @ new"
    "map row_email new = map PStr emails"
    "map row_provider new = map (\<lambda>email. PStr name) emails"
    by blast
  have b: "bulk_verify E (EmailVerificationManager E) emails service_name w
        = (Inr (PDict [(''results'', PList rs)]), w1)"
    using assms(3,4) 1(1) by (simp add: bulk_verify_def)
  have l: "length rs = length emails" using 1(2) by (rule map_eq_imp_length_eq)
  have n: "length new = length emails" using 1(4) by (rule map_eq_imp_length_eq)
  from b l 1(2) 1(3) n 1(4) 1(5) show ?thesis by blast
qed

lemma zerobounce_only_available:
  "get_available_services (EmailVerificationManager env_zerobounce_only) = [''zerobounce'']"
  by code_simp

theorem bulk_verify_no_deduplication_witness:
  "get_available_services (EmailVerificationManager env_zerobounce_only) = [''zerobounce'']
   \<and> (\<forall>k r. \<not> commit_fails env_zerobounce_only k r)
   \<and> \<not> given None
   \<and> [''a@x.com'', ''a@x.com''] \<noteq> []
   \<and> (\<exists>rs w1. bulk_verify env_zerobounce_only (EmailVerificationManager env_zerobounce_only)
                   [''a@x.com'', ''a@x.com''] None w0
                 = (Inr (PDict [(''results'', PList rs)]), w1)
         \<and> length rs = 2
         \<and> map email_of rs = [PStr ''a@x.com'', PStr ''a@x.com'']
         \<and> length (rows w1) = 2
         \<and> map row_email (rows w1) = [PStr ''a@x.com'', PStr ''a@x.com'']
         \<and> map row_provider (rows w1) = [PStr ''zerobounce'', PStr ''zerobounce''])"
proof -
  have c: "\<forall>k r. \<not> commit_fails env_zerobounce_only k r"
    by (simp add: env_zerobounce_only_def)
  have g: "\<not> given None" by (simp add: given_def)
  have e: "[''a@x.com'', ''a@x.com''] \<noteq> []" by simp
  from bulk_verify_no_deduplication [OF zerobounce_only_available c g e, of w0]
  obtain rs w1 new where 1:
    "bulk_verify env_zerobounce_only (EmailVerificationManager env_zerobounce_only)
        [''a@x.com'', ''a@x.com''] None w0 = (Inr (PDict [(''results'', PList rs)]), w1)"
    "length rs = length [''a@x.com'', ''a@x.com'']"
    "map email_of rs = map PStr [''a@x.com'', ''a@x.com'']"
    "rows w1 = rows w0 @ new"
    "length new = length [''a@x.com'', ''a@x.com'']"
    "map row_email new = map PStr [''a@x.com'', ''a@x.com'']"
    "map row_provider new = map (\<lambda>email. PStr ''zerobounce'') [''a@x.com'', ''a@x.com'']"
    by blast
  have r: "rows w1 = new" using 1(4) by (simp add: w0_def)
  have "\<exists>rs w1. bulk_verify env_zerobounce_only (EmailVerificationManager env_zerobounce_only)
                   [''a@x.com'', ''a@x.com''] None w0
                 = (Inr (PDict [(''results'', PList rs)]), w1)
         \<and> length rs = 2
         \<and> map email_of rs = [PStr ''a@x.com'', PStr ''a@x.com'']
         \<and> length (rows w1) = 2
         \<and> map row_email (rows w1) = [PStr ''a@x.com'', PStr ''a@x.com'']
         \<and> map row_provider (rows w1) = [PStr ''zerobounce'', PStr ''zerobounce'']"
    using 1 r by (intro exI [of _ rs] exI [of _ w1]) simp
  then show ?thesis using zerobounce_only_available c g e by (intro conjI)
qed

end
